theory Spec2Isabelle
  imports
    Complex_Main
    "HOL-Library.Sublist"
    "HOL-Library.AList"
    "HOL-Library.Signed_Division"
    "HOL-Library.Char_ord"
    "HOL-Library.List_Lexorder"
begin

section \<open>Go values, as far as the collection engine inspects them\<close>

text \<open>
  The engine receives records as \<^verbatim>\<open>any\<close> and looks at them only through
  \<^verbatim>\<open>reflect\<close> and \<^verbatim>\<open>fmt\<close>. Plain data (\<open>val\<close>) is what a struct field or a map
  element holds: the nil interface, strings, integers, booleans, struct values (field names
  in declaration order) and \<^verbatim>\<open>map[string]any\<close>. An interface value (\<open>gval\<close>) is plain
  data, a pointer, a typed nil pointer, or a \<^verbatim>\<open>reflect.Value\<close> (\<open>Reflect None\<close> is the
  zero Value). Floating point numbers, slices and pointers stored inside structs are left
  out of the value universe.
\<close>

datatype val =
    VNil
  | VStr string
  | VInt int
  | VBool bool
  | VStruct "(string \<times> val) list"
  | VMap "(string \<times> val) list"

datatype vtype = TAny | TString | TInt | TBool | TStruct "(string \<times> vtype) list" | TMap

datatype gtype = TVal vtype | TPtr gtype

datatype gval =
    Val val
  | Ptr gval
  | NilPtr gtype
  | Reflect "val option"

type_synonym bytes = string

text \<open>
  Errors are values. \<open>Panic\<close> is not an error the code returns: it marks the run-time panic
  that unwinds the call. \<open>ErrNotExist\<close> is \<^verbatim>\<open>os.ErrNotExist\<close>, \<open>External\<close> any other
  error of the file system or of the codec, \<open>Errorf\<close> a \<^verbatim>\<open>fmt.Errorf\<close> without a wrapped
  error and \<open>Wrap ctx e\<close> is \<^verbatim>\<open>fmt.Errorf("ctx: %w", e)\<close>.
\<close>

datatype error =
    ErrNotInitialized
  | ErrAlreadyInitialized
  | ErrNotIDNotUnique
  | ErrNotFound
  | ErrInvalidRecordType
  | IndexedValueNotUniqueError string
  | ErrNotExist
  | External string
  | Errorf string
  | Wrap string error
  | Panic string

text \<open>\<^verbatim>\<open>errors.Is(err, os.ErrNotExist)\<close>: follows the chain of wrapped errors.\<close>

fun is_not_exist :: "error \<Rightarrow> bool" where
  "is_not_exist ErrNotExist = True"
| "is_not_exist (Wrap ctx e) = is_not_exist e"
| "is_not_exist e = False"

fun is_panic :: "error \<Rightarrow> bool" where
  "is_panic (Panic msg) = True"
| "is_panic e = False"

text \<open>
  \<^verbatim>\<open>fmt.Errorf("ctx: %w", err)\<close> on the error a call returned; a panic of that call is not
  a returned error and unwinds past the wrapping.
\<close>

definition wrap :: "string \<Rightarrow> error \<Rightarrow> error" where
  "wrap ctx e = (if is_panic e then e else Wrap ctx e)"

subsection \<open>Reflection\<close>

text \<open>\<^verbatim>\<open>reflect.New(t)\<close> points to the zero value of \<open>t\<close>.\<close>

primrec zero_val :: "vtype \<Rightarrow> val" where
  "zero_val TAny = VNil"
| "zero_val TString = VStr []"
| "zero_val TInt = VInt 0"
| "zero_val TBool = VBool False"
| "zero_val (TStruct fs) = VStruct (map (map_prod id zero_val) fs)"
| "zero_val TMap = VMap []"

fun zero :: "gtype \<Rightarrow> gval" where
  "zero (TVal t) = Val (zero_val t)"
| "zero (TPtr t) = NilPtr t"

definition reflect_New :: "gtype \<Rightarrow> gval" where
  "reflect_New t = Ptr (zero t)"

text \<open>\<^verbatim>\<open>reflect.ValueOf(v).Kind() == reflect.Struct\<close>.\<close>

fun isStruct :: "gval \<Rightarrow> bool" where
  "isStruct (Val (VStruct fs)) = True"
| "isStruct (Reflect r) = True"
| "isStruct v = False"

text \<open>
  \<^verbatim>\<open>reflect.TypeOf(v)\<close> is nil for the nil interface, and \<^verbatim>\<open>t.Kind()\<close> on it is a nil
  dereference. A pointer's element type is read off what it points to.
\<close>

fun isPointerToStruct :: "gval \<Rightarrow> error + bool" where
  "isPointerToStruct (Val VNil) = Inl (Panic ''invalid memory address or nil pointer dereference'')"
| "isPointerToStruct (Ptr (Val (VStruct fs))) = Inr True"
| "isPointerToStruct (NilPtr (TVal (TStruct fs))) = Inr True"
| "isPointerToStruct v = Inr False"

text \<open>
  The guard \<^verbatim>\<open>!isStruct(v) && !isPointerToStruct(v)\<close> of getFieldValue, Create, Get,
  GetIndexed and Update: \<open>Inr True\<close> when \<open>v\<close> is neither; the second test runs only when
  the first one holds.
\<close>

definition not_record :: "gval \<Rightarrow> error + bool" where
  "not_record v =
     (if \<not> isStruct v
      then (case isPointerToStruct v of Inl e \<Rightarrow> Inl e | Inr p \<Rightarrow> Inr (\<not> p))
      else Inr False)"

text \<open>
  \<^verbatim>\<open>reflect.Value.FieldByName\<close>: panics unless the Value's kind is Struct; the zero Value
  when the struct has no such field. The fields of a \<^verbatim>\<open>reflect.Value\<close> itself are
  unexported internals and are not looked into.
\<close>

fun FieldByName :: "gval \<Rightarrow> string \<Rightarrow> error + gval" where
  "FieldByName (Val (VStruct fs)) field = Inr (Reflect (map_of fs field))"
| "FieldByName (Reflect r) field = Inr (Reflect None)"
| "FieldByName (Ptr x) field = Inl (Panic ''reflect: call of reflect.Value.FieldByName on ptr Value'')"
| "FieldByName (NilPtr t) field = Inl (Panic ''reflect: call of reflect.Value.FieldByName on ptr Value'')"
| "FieldByName v field = Inl (Panic ''reflect: call of reflect.Value.FieldByName on non-struct Value'')"

definition getFieldValue :: "gval \<Rightarrow> string \<Rightarrow> error + gval" where
  "getFieldValue v field =
     (case not_record v of
        Inl e \<Rightarrow> Inl e
      | Inr True \<Rightarrow> Inr (Val VNil)
      | Inr False \<Rightarrow> FieldByName v field)"

text \<open>
  \<^verbatim>\<open>reflect.ValueOf(rec).Field(0).String()\<close>, as the index rebuild reads a record's id:
  \<^verbatim>\<open>Field\<close> panics on a Value that is not a struct or has no field; \<^verbatim>\<open>String\<close> gives
  the string of a string field and the text \<^verbatim>\<open><T Value>\<close> for a field of any other type
  \<^verbatim>\<open>T\<close> (for a struct type the model has no type name to print).
\<close>

fun Field0_String :: "gval \<Rightarrow> error + string" where
  "Field0_String (Val (VStruct [])) = Inl (Panic ''reflect: Field index out of range'')"
| "Field0_String (Val (VStruct ((n, VStr s) # fs))) = Inr s"
| "Field0_String (Val (VStruct ((n, VNil) # fs))) = Inr ''<interface {} Value>''"
| "Field0_String (Val (VStruct ((n, VInt i) # fs))) = Inr ''<int Value>''"
| "Field0_String (Val (VStruct ((n, VBool b) # fs))) = Inr ''<bool Value>''"
| "Field0_String (Val (VStruct ((n, VStruct gs) # fs))) = Inr ''<struct Value>''"
| "Field0_String (Val (VStruct ((n, VMap m) # fs))) = Inr ''<map[string]interface {} Value>''"
| "Field0_String (Ptr x) = Inl (Panic ''reflect: call of reflect.Value.Field on ptr Value'')"
| "Field0_String (NilPtr t) = Inl (Panic ''reflect: call of reflect.Value.Field on ptr Value'')"
| "Field0_String v = Inl (Panic ''reflect: call of reflect.Value.Field on non-struct Value'')"

subsection \<open>Formatting with \<^verbatim>\<open>%v\<close> and the composite key\<close>

definition digit :: "nat \<Rightarrow> char" where
  "digit n = char_of (48 + n)"

function fmt_nat :: "nat \<Rightarrow> string" where
  "fmt_nat n = (if n < 10 then [digit n] else fmt_nat (n div 10) @ [digit (n mod 10)])"
  by pat_completeness auto
termination
  by (relation "measure id") auto

definition fmt_int :: "int \<Rightarrow> string" where
  "fmt_int i = (if i < 0 then CHR ''-'' # fmt_nat (nat (- i)) else fmt_nat (nat i))"

fun join_sp :: "string list \<Rightarrow> string" where
  "join_sp [] = []"
| "join_sp [s] = s"
| "join_sp (s # t # ss) = s @ '' '' @ join_sp (t # ss)"

text \<open>
  Plain data under \<^verbatim>\<open>%v\<close>: strings bare, structs as \<^verbatim>\<open>{v1 v2}\<close>, maps as
  \<^verbatim>\<open>map[k1:v1 k2:v2]\<close> with the keys sorted.
\<close>

primrec fmt_val :: "val \<Rightarrow> string" where
  "fmt_val VNil = ''<nil>''"
| "fmt_val (VStr s) = s"
| "fmt_val (VInt i) = fmt_int i"
| "fmt_val (VBool b) = (if b then ''true'' else ''false'')"
| "fmt_val (VStruct fs) = ''{'' @ join_sp (map snd (map (map_prod id fmt_val) fs)) @ ''}''"
| "fmt_val (VMap m) =
     ''map['' @ join_sp (map (\<lambda>(k, s). k @ '':'' @ s) (sort_key fst (map (map_prod id fmt_val) m))) @ '']''"

text \<open>
  An operand that is a \<^verbatim>\<open>reflect.Value\<close> is replaced by the value it holds. A pointer to a
  struct or map prints as \<^verbatim>\<open>&{...}\<close>; any other pointer prints as its machine address,
  which the model does not have: \<open>key\<close> is never applied to a pointer by the operations
  below.
\<close>

fun fmtv :: "gval \<Rightarrow> string" where
  "fmtv (Val v) = fmt_val v"
| "fmtv (Reflect None) = ''<invalid reflect.Value>''"
| "fmtv (Reflect (Some v)) = fmt_val v"
| "fmtv (NilPtr t) = ''<nil>''"
| "fmtv (Ptr (Val (VStruct fs))) = ''&'' @ fmt_val (VStruct fs)"
| "fmtv (Ptr (Val (VMap m))) = ''&'' @ fmt_val (VMap m)"
| "fmtv (Ptr v) = ''0x''"

definition key :: "string \<Rightarrow> gval \<Rightarrow> string" where
  "key field v = field @ '':'' @ fmtv v"

section \<open>The file system and the codec\<close>

text \<open>
  The file system is the content of the collection directory \<^verbatim>\<open>fullpath()\<close>, which
  Init creates: its entries by name, in the lexical order in which \<^verbatim>\<open>filepath.Walk\<close>
  visits them, each a regular file or a subdirectory (taken to be empty). The three
  predicates say for which names an operation of the operating system fails for a reason
  outside the model (permissions, a full disk); a failed write leaves the file as it was.
\<close>

datatype node = File bytes | Dir

record fsys =
  entries :: "(string \<times> node) list"
  read_fails :: "string \<Rightarrow> bool"
  write_fails :: "string \<Rightarrow> bool"
  remove_fails :: "string \<Rightarrow> bool"

fun put :: "string \<Rightarrow> node \<Rightarrow> (string \<times> node) list \<Rightarrow> (string \<times> node) list" where
  "put p n [] = [(p, n)]"
| "put p n ((q, m) # es) =
     (if p = q then (p, n) # es
      else if p < q then (p, n) # (q, m) # es
      else (q, m) # put p n es)"

definition ReadFile :: "fsys \<Rightarrow> string \<Rightarrow> error + bytes" where
  "ReadFile fs p =
     (case map_of (entries fs) p of
        None \<Rightarrow> Inl ErrNotExist
      | Some Dir \<Rightarrow> Inl (External ''is a directory'')
      | Some (File b) \<Rightarrow> if read_fails fs p then Inl (External ''read'') else Inr b)"

definition WriteFile :: "fsys \<Rightarrow> string \<Rightarrow> bytes \<Rightarrow> error option \<times> fsys" where
  "WriteFile fs p data =
     (if write_fails fs p then (Some (External ''write''), fs)
      else case map_of (entries fs) p of
        Some Dir \<Rightarrow> (Some (External ''is a directory''), fs)
      | _ \<Rightarrow> (None, fs\<lparr>entries := put p (File data) (entries fs)\<rparr>))"

definition Remove :: "fsys \<Rightarrow> string \<Rightarrow> error option \<times> fsys" where
  "Remove fs p =
     (if remove_fails fs p then (Some (External ''remove''), fs)
      else case map_of (entries fs) p of
        None \<Rightarrow> (Some ErrNotExist, fs)
      | Some n \<Rightarrow> (None, fs\<lparr>entries := filter (\<lambda>e. fst e \<noteq> p) (entries fs)\<rparr>))"

text \<open>\<^verbatim>\<open>os.Stat\<close> followed by \<^verbatim>\<open>!os.IsNotExist(err)\<close>.\<close>

definition Stat_exists :: "fsys \<Rightarrow> string \<Rightarrow> bool" where
  "Stat_exists fs p = (map_of (entries fs) p \<noteq> None)"

text \<open>
  The index structure \<^verbatim>\<open>Collection.Indexing\<close> and the codec. The Go interfaces
  \<^verbatim>\<open>Encoder\<close> and \<^verbatim>\<open>Decoder\<close> are applied at two static types, records and the index
  structure; the model has one function for each. \<open>Decode b dest\<close> gives the error and the
  value that \<open>dest\<close> points to after the call (ignored when \<open>dest\<close> is no pointer: the
  decoder then works on a copy). The map \<^verbatim>\<open>Indexes\<close> is an association list, read with
  \<open>map_of\<close> and written with \<open>AList.update\<close> and \<open>AList.delete\<close>; a nil map is not told
  apart from an empty one, nor a nil slice from an empty one.
\<close>

record indexing =
  Fields :: "string list"
  Indexes :: "(string \<times> string) list"

record Encoder =
  Encode :: "gval \<Rightarrow> error + bytes"
  EncodeIndexing :: "indexing \<Rightarrow> error + bytes"

record Decoder =
  Decode :: "bytes \<Rightarrow> gval \<Rightarrow> error option \<times> gval"
  DecodeIndexing :: "bytes \<Rightarrow> indexing \<Rightarrow> error option \<times> indexing"

section \<open>The collection\<close>

text \<open>
  The struct \<^verbatim>\<open>Collection\<close> without its mutex (calls are sequential here) and without
  the permission bits. \<open>Encoder\<close> and \<open>Decoder\<close> are interface values: \<open>None\<close> is nil, and a
  call through a nil interface panics.
\<close>

record Collection =
  initialized :: bool
  record_type :: gtype
  Path :: string
  Name :: string
  Encoder :: "Encoder option"
  Decoder :: "Decoder option"
  Indexing :: indexing

definition nil_deref :: error where
  "nil_deref = Panic ''invalid memory address or nil pointer dereference''"

definition call_Encode :: "Collection \<Rightarrow> gval \<Rightarrow> error + bytes" where
  "call_Encode c v = (case Encoder c of None \<Rightarrow> Inl nil_deref | Some e \<Rightarrow> Encode e v)"

definition call_EncodeIndexing :: "Collection \<Rightarrow> indexing \<Rightarrow> error + bytes" where
  "call_EncodeIndexing c ix =
     (case Encoder c of None \<Rightarrow> Inl nil_deref | Some e \<Rightarrow> EncodeIndexing e ix)"

text \<open>
  \<open>call_Decode c b dest\<close>: a panic, or the decoder's error together with \<open>dest\<close> as it is
  after the call.
\<close>

definition call_Decode :: "Collection \<Rightarrow> bytes \<Rightarrow> gval \<Rightarrow> error + (error option \<times> gval)" where
  "call_Decode c b dest =
     (case Decoder c of
        None \<Rightarrow> Inl nil_deref
      | Some d \<Rightarrow>
          (case dest of
             Ptr x \<Rightarrow> Inr (fst (Decode d b dest), Ptr (snd (Decode d b dest)))
           | _ \<Rightarrow> Inr (fst (Decode d b dest), dest)))"

text \<open>
  \<^verbatim>\<open>filepath\<close>: names are relative to the collection directory, so
  \<^verbatim>\<open>filepath.Join(c.Path, c.Name, name+ext)\<close> is \<open>name @ ext\<close>; this is exact for a name
  that is a single path element.
\<close>

definition filepath :: "Collection \<Rightarrow> string \<Rightarrow> bool \<Rightarrow> string" where
  "filepath c name index = name @ (if index then ''.sdx'' else ''.sds'')"

definition save :: "Collection \<Rightarrow> fsys \<Rightarrow> string \<Rightarrow> bytes \<Rightarrow> error option \<times> fsys" where
  "save c fs filename data =
     (if \<not> initialized c then (Some ErrNotInitialized, fs) else WriteFile fs filename data)"

definition load :: "Collection \<Rightarrow> fsys \<Rightarrow> string \<Rightarrow> error + bytes" where
  "load c fs filename = ReadFile fs filename"

definition exists :: "Collection \<Rightarrow> fsys \<Rightarrow> string \<Rightarrow> bool" where
  "exists c fs rid = Stat_exists fs (filepath c rid False)"

definition existsIndexed :: "Collection \<Rightarrow> string \<Rightarrow> gval \<Rightarrow> bool" where
  "existsIndexed c field v = (map_of (Indexes (Indexing c)) (key field v) \<noteq> None)"

definition saveIndexes :: "Collection \<Rightarrow> fsys \<Rightarrow> error option \<times> fsys" where
  "saveIndexes c fs =
     (case call_EncodeIndexing c (Indexing c) of
        Inl e \<Rightarrow> (Some (wrap ''encoding indexes'' e), fs)
      | Inr b \<Rightarrow>
          (case save c fs (filepath c (Name c) True) b of
             (Some e, fs') \<Rightarrow> (Some (wrap ''saving index'' e), fs')
           | (None, fs') \<Rightarrow> (None, fs')))"

text \<open>
  \<open>loadIndexes\<close> decodes into \<^verbatim>\<open>&c.Indexing\<close>: the field holds whatever the decoder left
  there, also when the decoder fails.
\<close>

definition loadIndexes :: "Collection \<Rightarrow> fsys \<Rightarrow> error option \<times> Collection" where
  "loadIndexes c fs =
     (case load c fs (filepath c (Name c) True) of
        Inl e \<Rightarrow> (Some (wrap ''loading index'' e), c)
      | Inr b \<Rightarrow>
          (case Decoder c of
             None \<Rightarrow> (Some nil_deref, c)
           | Some d \<Rightarrow>
               (case DecodeIndexing d b (Indexing c) of
                  (Some e, ix) \<Rightarrow> (Some (wrap ''decoding indexes'' e), c\<lparr>Indexing := ix\<rparr>)
                | (None, ix) \<Rightarrow> (None, c\<lparr>Indexing := ix\<rparr>))))"

text \<open>\<open>setIndex\<close> stores the entry in memory and rewrites the index file.\<close>

definition setIndex ::
  "Collection \<Rightarrow> fsys \<Rightarrow> string \<Rightarrow> gval \<Rightarrow> string \<Rightarrow> error option \<times> Collection \<times> fsys" where
  "setIndex c fs field v rid =
     (let c' = c\<lparr>Indexing := (Indexing c)\<lparr>Indexes := AList.update (key field v) rid (Indexes (Indexing c))\<rparr>\<rparr>
      in case saveIndexes c' fs of (e, fs') \<Rightarrow> (e, c', fs'))"

subsection \<open>Walking the collection directory\<close>

text \<open>
  \<^verbatim>\<open>filepath.Walk(c.fullpath(), fn)\<close> calls \<open>fn\<close> on the root directory and then on every
  entry in lexical order; the first error \<open>fn\<close> returns stops the walk and is returned.
  \<open>fn\<close> threads the variables its closure captures.
\<close>

definition fullpath :: "Collection \<Rightarrow> string" where
  "fullpath c = Path c @ ''/'' @ Name c"

fun walk_entries :: "('s \<Rightarrow> string \<times> node \<Rightarrow> error + 's) \<Rightarrow> (string \<times> node) list \<Rightarrow> 's \<Rightarrow> error + 's" where
  "walk_entries fn [] s = Inr s"
| "walk_entries fn (e # es) s =
     (case fn s e of Inl err \<Rightarrow> Inl err | Inr s' \<Rightarrow> walk_entries fn es s')"

definition Walk :: "Collection \<Rightarrow> fsys \<Rightarrow> ('s \<Rightarrow> string \<times> node \<Rightarrow> error + 's) \<Rightarrow> 's \<Rightarrow> error + 's" where
  "Walk c fs fn s =
     (case fn s (fullpath c, Dir) of
        Inl err \<Rightarrow> Inl err
      | Inr s' \<Rightarrow> walk_entries fn (entries fs) s')"

fun deref :: "gval \<Rightarrow> gval" where
  "deref (Ptr x) = x"
| "deref v = v"

subsection \<open>Query and QueryPaginated\<close>

text \<open>The callback of Query; \<open>res\<close> is the result slice it appends to.\<close>

fun query_file :: "Collection \<Rightarrow> fsys \<Rightarrow> (gval \<Rightarrow> bool) \<Rightarrow> gval list \<Rightarrow> string \<times> node \<Rightarrow> error + gval list" where
  "query_file c fs f res (path, Dir) = Inr res"
| "query_file c fs f res (path, File x) =
     (if \<not> suffix ''.sds'' path then Inr res
      else (case load c fs path of
              Inl e \<Rightarrow> Inl e
            | Inr b \<Rightarrow>
                (case call_Decode c b (Ptr (reflect_New (record_type c))) of
                   Inl e \<Rightarrow> Inl e
                 | Inr (Some e, d) \<Rightarrow> Inl e
                 | Inr (None, d) \<Rightarrow> Inr (if f (deref d) then res @ [deref d] else res))))"

definition Query :: "Collection \<Rightarrow> fsys \<Rightarrow> (gval \<Rightarrow> bool) \<Rightarrow> error + gval list" where
  "Query c fs f =
     (if \<not> initialized c then Inl ErrNotInitialized
      else Walk c fs (query_file c fs f) [])"

text \<open>
  Go's \<^verbatim>\<open>int\<close> is taken at 64 bits: \<open>wrap64\<close> is the wrap-around of its arithmetic,
  \<open>sdiv\<close> and \<open>smod\<close> stand for the truncating \<^verbatim>\<open>/\<close> and \<^verbatim>\<open>%\<close>, and Go panics on a
  zero divisor. The slice expression \<^verbatim>\<open>recs[from:to]\<close> panics unless
  \<^verbatim>\<open>0 <= from <= to <= cap(recs)\<close>; \<open>to\<close> has been cut down to \<open>count\<close> before, so the
  last bound always holds.
\<close>

definition wrap64 :: "int \<Rightarrow> int" where
  "wrap64 x = signed_take_bit 63 x"

definition QueryPaginated ::
  "Collection \<Rightarrow> fsys \<Rightarrow> (gval \<Rightarrow> bool) \<Rightarrow> int \<Rightarrow> int \<Rightarrow> error + (gval list \<times> int)" where
  "QueryPaginated c fs f page rows =
     (if \<not> initialized c then Inl ErrNotInitialized
      else case Query c fs f of
        Inl e \<Rightarrow> Inl e
      | Inr recs \<Rightarrow>
          if page = 0 \<and> rows = 0 then Inr (recs, 0)
          else if rows = 0 then Inl (Panic ''runtime error: integer divide by zero'')
          else
            let count = int (length recs);
                pages0 = wrap64 (count sdiv rows);
                pages = (if count smod rows \<noteq> 0 then wrap64 (pages0 + 1) else pages0);
                page' = (if page > pages then pages else page);
                from = wrap64 (wrap64 (page' * rows) - rows);
                to0 = wrap64 (page' * rows);
                to = (if to0 > count then count else to0)
            in if from < 0 \<or> to < from
               then Inl (Panic ''runtime error: slice bounds out of range'')
               else Inr (take (nat (to - from)) (drop (nat from) recs), pages))"

subsection \<open>Get and GetIndexed\<close>

text \<open>Both return the error and \<open>dest\<close> as it is after the call.\<close>

definition Get :: "Collection \<Rightarrow> fsys \<Rightarrow> string \<Rightarrow> gval \<Rightarrow> error option \<times> gval" where
  "Get c fs rid dest =
     (if \<not> initialized c then (Some ErrNotInitialized, dest)
      else case not_record dest of
        Inl e \<Rightarrow> (Some e, dest)
      | Inr True \<Rightarrow> (Some ErrInvalidRecordType, dest)
      | Inr False \<Rightarrow>
          if \<not> exists c fs rid then (Some ErrNotFound, dest)
          else (case load c fs (filepath c rid False) of
                  Inl e \<Rightarrow> (Some (wrap ''loading record'' e), dest)
                | Inr b \<Rightarrow>
                    (case call_Decode c b dest of
                       Inl e \<Rightarrow> (Some e, dest)
                     | Inr (Some e, d) \<Rightarrow> (Some (wrap ''decoding data'' e), d)
                     | Inr (None, d) \<Rightarrow> (None, d))))"

definition GetIndexed :: "Collection \<Rightarrow> fsys \<Rightarrow> string \<Rightarrow> string \<Rightarrow> gval \<Rightarrow> error option \<times> gval" where
  "GetIndexed c fs field v dest =
     (if \<not> initialized c then (Some ErrNotInitialized, dest)
      else case not_record dest of
        Inl e \<Rightarrow> (Some e, dest)
      | Inr True \<Rightarrow> (Some ErrInvalidRecordType, dest)
      | Inr False \<Rightarrow>
          (case map_of (Indexes (Indexing c)) (key field (Val (VStr v))) of
             None \<Rightarrow> (Some ErrNotFound, dest)
           | Some rid \<Rightarrow>
               (case load c fs (filepath c rid False) of
                  Inl e \<Rightarrow> (Some (wrap ''loading record'' e), dest)
                | Inr b \<Rightarrow>
                    (case call_Decode c b dest of
                       Inl e \<Rightarrow> (Some e, dest)
                     | Inr (Some e, d) \<Rightarrow> (Some (wrap ''decoding data'' e), d)
                     | Inr (None, d) \<Rightarrow> (None, d)))))"

subsection \<open>Create\<close>

text \<open>
  The loop of Create over \<^verbatim>\<open>c.Indexing.Fields\<close>. The error setIndex returns is dropped by
  the source; a panic inside it unwinds.
\<close>

fun create_fields ::
  "Collection \<Rightarrow> fsys \<Rightarrow> string \<Rightarrow> gval \<Rightarrow> string list \<Rightarrow> error option \<times> Collection \<times> fsys" where
  "create_fields c fs rid data [] = (None, c, fs)"
| "create_fields c fs rid data (fld # flds) =
     (case getFieldValue data fld of
        Inl e \<Rightarrow> (Some e, c, fs)
      | Inr v \<Rightarrow>
          if v = Val VNil then create_fields c fs rid data flds
          else if existsIndexed c fld v then (Some (IndexedValueNotUniqueError fld), c, fs)
          else (case setIndex c fs fld v rid of
                  (Some e, c', fs') \<Rightarrow>
                    if is_panic e then (Some e, c', fs') else create_fields c' fs' rid data flds
                | (None, c', fs') \<Rightarrow> create_fields c' fs' rid data flds))"

definition Create :: "Collection \<Rightarrow> fsys \<Rightarrow> string \<Rightarrow> gval \<Rightarrow> error option \<times> Collection \<times> fsys" where
  "Create c fs rid data =
     (if \<not> initialized c then (Some ErrNotInitialized, c, fs)
      else case not_record data of
        Inl e \<Rightarrow> (Some e, c, fs)
      | Inr True \<Rightarrow> (Some ErrInvalidRecordType, c, fs)
      | Inr False \<Rightarrow>
          if exists c fs rid then (Some ErrNotIDNotUnique, c, fs)
          else (case call_Encode c data of
                  Inl e \<Rightarrow> (Some (wrap ''encoding data'' e), c, fs)
                | Inr b \<Rightarrow>
                    (case create_fields c fs rid data (Fields (Indexing c)) of
                       (Some e, c', fs') \<Rightarrow> (Some e, c', fs')
                     | (None, c', fs') \<Rightarrow>
                         (case save c' fs' (filepath c' rid False) b of
                            (Some e, fs'') \<Rightarrow> (Some (wrap ''saving record'' e), c', fs'')
                          | (None, fs'') \<Rightarrow> (None, c', fs'')))))"

subsection \<open>Update\<close>

text \<open>
  The loop of Update. \<open>oldRec\<close> is what the decoder put into an empty interface; the stale
  key is deleted only when that is a \<^verbatim>\<open>map[string]any\<close> with an element under the
  field's name.
\<close>

definition delete_stale :: "Collection \<Rightarrow> gval \<Rightarrow> string \<Rightarrow> Collection" where
  "delete_stale c oldRec fld =
     (case oldRec of
        Val (VMap oldVals) \<Rightarrow>
          (case map_of oldVals fld of
             Some oldv \<Rightarrow>
               c\<lparr>Indexing := (Indexing c)\<lparr>Indexes := AList.delete (key fld (Val oldv)) (Indexes (Indexing c))\<rparr>\<rparr>
           | None \<Rightarrow> c)
      | _ \<Rightarrow> c)"

fun update_fields ::
  "Collection \<Rightarrow> fsys \<Rightarrow> string \<Rightarrow> gval \<Rightarrow> gval \<Rightarrow> string list \<Rightarrow> error option \<times> Collection \<times> fsys" where
  "update_fields c fs rid data oldRec [] = (None, c, fs)"
| "update_fields c fs rid data oldRec (fld # flds) =
     (let c1 = delete_stale c oldRec fld
      in case getFieldValue data fld of
           Inl e \<Rightarrow> (Some e, c1, fs)
         | Inr v \<Rightarrow>
             if v = Val VNil then update_fields c1 fs rid data oldRec flds
             else (case setIndex c1 fs fld v rid of
                     (Some e, c', fs') \<Rightarrow>
                       if is_panic e then (Some e, c', fs')
                       else update_fields c' fs' rid data oldRec flds
                   | (None, c', fs') \<Rightarrow> update_fields c' fs' rid data oldRec flds))"

definition Update :: "Collection \<Rightarrow> fsys \<Rightarrow> string \<Rightarrow> gval \<Rightarrow> error option \<times> Collection \<times> fsys" where
  "Update c fs rid data =
     (if \<not> initialized c then (Some ErrNotInitialized, c, fs)
      else case not_record data of
        Inl e \<Rightarrow> (Some e, c, fs)
      | Inr True \<Rightarrow> (Some ErrInvalidRecordType, c, fs)
      | Inr False \<Rightarrow>
          (case load c fs (filepath c rid False) of
             Inl e \<Rightarrow> (if is_not_exist e then (Some ErrNotFound, c, fs) else (Some e, c, fs))
           | Inr b0 \<Rightarrow>
               (case call_Decode c b0 (Ptr (Val VNil)) of
                  Inl e \<Rightarrow> (Some e, c, fs)
                | Inr (Some e, d) \<Rightarrow> (Some e, c, fs)
                | Inr (None, d) \<Rightarrow>
                    (case call_Encode c data of
                       Inl e \<Rightarrow> (Some (wrap ''encoding data'' e), c, fs)
                     | Inr b \<Rightarrow>
                         (case update_fields c fs rid data (deref d) (Fields (Indexing c)) of
                            (Some e, c', fs') \<Rightarrow> (Some e, c', fs')
                          | (None, c', fs') \<Rightarrow>
                              (case save c' fs' (filepath c' rid False) b of
                                 (Some e, fs'') \<Rightarrow> (Some (wrap ''saving record'' e), c', fs'')
                               | (None, fs'') \<Rightarrow> (None, c', fs'')))))))"

subsection \<open>Delete\<close>

text \<open>
  The loop of Delete ranges over the whole index table and deletes every key whose value
  is the id.
\<close>

fun delete_by_id :: "(string \<times> string) list \<Rightarrow> string \<Rightarrow> (string \<times> string) list" where
  "delete_by_id [] rid = []"
| "delete_by_id ((k, v) # es) rid =
     (if v \<noteq> rid then (k, v) # delete_by_id es rid else delete_by_id es rid)"

definition Delete :: "Collection \<Rightarrow> fsys \<Rightarrow> string \<Rightarrow> error option \<times> Collection \<times> fsys" where
  "Delete c fs rid =
     (if \<not> initialized c then (Some ErrNotInitialized, c, fs)
      else if \<not> exists c fs rid then (Some ErrNotFound, c, fs)
      else (case Remove fs (filepath c rid False) of
              (Some e, fs') \<Rightarrow> (Some (wrap ''deleting record'' e), c, fs')
            | (None, fs') \<Rightarrow>
                (let c' = c\<lparr>Indexing := (Indexing c)\<lparr>Indexes := delete_by_id (Indexes (Indexing c)) rid\<rparr>\<rparr>
                 in case saveIndexes c' fs' of
                      (Some e, fs'') \<Rightarrow> (Some (wrap ''saving indexes'' e), c', fs'')
                    | (None, fs'') \<Rightarrow> (None, c', fs''))))"

subsection \<open>Index rebuild and Init\<close>

text \<open>
  The loop of recreateIndexes over the indexed fields of one decoded record. It inserts into
  \<open>newIndexes\<close>; the flag tells whether the loop ran to its end, so that the callback goes on
  to the assignment \<^verbatim>\<open>c.Indexing.Indexes = newIndexes\<close>, or left the callback early.
\<close>

fun reindex_fields :: "gval \<Rightarrow> string list \<Rightarrow> (string \<times> string) list \<Rightarrow> error + ((string \<times> string) list \<times> bool)" where
  "reindex_fields rec [] newIndexes = Inr (newIndexes, True)"
| "reindex_fields rec (fld # flds) newIndexes =
     (case getFieldValue rec fld of
        Inl e \<Rightarrow> Inl e
      | Inr val \<Rightarrow>
          if val = Val VNil then Inr (newIndexes, False)
          else (case Field0_String rec of
                  Inl e \<Rightarrow> Inl e
                | Inr rid \<Rightarrow>
                    if rid = [] then Inr (newIndexes, False)
                    else reindex_fields rec flds (AList.update (key fld val) rid newIndexes)))"

text \<open>
  The callback of recreateIndexes. Its closure holds the map \<open>newIndexes\<close> and the
  collection; once \<^verbatim>\<open>c.Indexing.Indexes = newIndexes\<close> has run, both name the same map, so
  the state is the map and whether the assignment has happened.
\<close>

fun reindex_file ::
  "Collection \<Rightarrow> fsys \<Rightarrow> (string \<times> string) list \<times> bool \<Rightarrow> string \<times> node \<Rightarrow>
     error + ((string \<times> string) list \<times> bool)" where
  "reindex_file c fs (newIndexes, assigned) (path, Dir) = Inr (newIndexes, assigned)"
| "reindex_file c fs (newIndexes, assigned) (path, File x) =
     (if \<not> suffix ''.sds'' path then Inr (newIndexes, assigned)
      else (case load c fs path of
              Inl e \<Rightarrow> Inl e
            | Inr b \<Rightarrow>
                (case call_Decode c b (Ptr (reflect_New (record_type c))) of
                   Inl e \<Rightarrow> Inl e
                 | Inr (Some e, d) \<Rightarrow> Inr (newIndexes, assigned)
                 | Inr (None, d) \<Rightarrow>
                     (case reindex_fields (deref d) (Fields (Indexing c)) newIndexes of
                        Inl e \<Rightarrow> Inl e
                      | Inr (newIndexes', True) \<Rightarrow> Inr (newIndexes', True)
                      | Inr (newIndexes', False) \<Rightarrow> Inr (newIndexes', assigned)))))"

definition recreateIndexes :: "Collection \<Rightarrow> fsys \<Rightarrow> error + Collection" where
  "recreateIndexes c fs =
     (case Walk c fs (reindex_file c fs) ([], False) of
        Inl e \<Rightarrow> Inl e
      | Inr (newIndexes, assigned) \<Rightarrow>
          Inr (if assigned then c\<lparr>Indexing := (Indexing c)\<lparr>Indexes := newIndexes\<rparr>\<rparr> else c))"

text \<open>
  Init. \<^verbatim>\<open>os.MkdirAll\<close> makes the collection directory, which the file system of the model
  is the content of. \<^verbatim>\<open>cmp.Diff(indexedFields, c.Indexing.Fields) != ""\<close> is inequality of
  the two lists.
\<close>

definition Init :: "Collection \<Rightarrow> fsys \<Rightarrow> error + Collection" where
  "Init c fs =
     (if initialized c then Inl ErrAlreadyInitialized
      else if Encoder c = None then Inl (Errorf ''nil encoder'')
      else if Decoder c = None then Inl (Errorf ''nil decoder'')
      else
        (let indexedFields = Fields (Indexing c)
         in case loadIndexes c fs of
              (Some e, c1) \<Rightarrow>
                if \<not> is_not_exist e then Inl e
                else if indexedFields \<noteq> Fields (Indexing c1)
                then (case recreateIndexes c1 fs of
                        Inl e' \<Rightarrow> Inl (wrap ''reindexing'' e')
                      | Inr c2 \<Rightarrow> Inr (c2\<lparr>initialized := True\<rparr>))
                else Inr (c1\<lparr>initialized := True\<rparr>)
            | (None, c1) \<Rightarrow>
                if indexedFields \<noteq> Fields (Indexing c1)
                then (case recreateIndexes c1 fs of
                        Inl e' \<Rightarrow> Inl (wrap ''reindexing'' e')
                      | Inr c2 \<Rightarrow> Inr (c2\<lparr>initialized := True\<rparr>))
                else Inr (c1\<lparr>initialized := True\<rparr>)))"

section \<open>Concrete inputs\<close>

text \<open>
  A small codec in the place of the caller's \<^verbatim>\<open>EncodeFunc\<close> and \<^verbatim>\<open>DecodeFunc\<close>: a
  struct is written as \<^verbatim>\<open>name=value;\<close> for each field. Decoding into a struct (or into
  an interface holding a pointer to one, which it keeps, as \<^verbatim>\<open>encoding/json\<close> does) sets
  the fields the text names; decoding into an empty interface gives a
  \<^verbatim>\<open>map[string]any\<close>. The index structure is written as its field names, a bar, and
  \<^verbatim>\<open>key=id;\<close> for each entry.
\<close>

definition kv_pair :: "string \<times> val \<Rightarrow> string" where
  "kv_pair p = fst p @ ''='' @ fmt_val (snd p) @ '';''"

definition kv_Encode :: "gval \<Rightarrow> error + bytes" where
  "kv_Encode v =
     (case v of
        Val (VStruct fs) \<Rightarrow> Inr (concat (map kv_pair fs))
      | Ptr (Val (VStruct fs)) \<Rightarrow> Inr (concat (map kv_pair fs))
      | _ \<Rightarrow> Inl (External ''kv: unsupported value''))"

fun split_on :: "char \<Rightarrow> string \<Rightarrow> string \<Rightarrow> string list" where
  "split_on sep acc [] = (if acc = [] then [] else [acc])"
| "split_on sep acc (x # xs) =
     (if x = sep then acc # split_on sep [] xs else split_on sep (acc @ [x]) xs)"

definition kv_item :: "string \<Rightarrow> (string \<times> val) option" where
  "kv_item s =
     (if CHR ''='' \<in> set s
      then Some (takeWhile (\<lambda>x. x \<noteq> CHR ''='') s, VStr (tl (dropWhile (\<lambda>x. x \<noteq> CHR ''='') s)))
      else None)"

definition kv_parse :: "bytes \<Rightarrow> (string \<times> val) list option" where
  "kv_parse b = those (map kv_item (split_on CHR '';'' [] b))"

definition kv_fill :: "(string \<times> val) list \<Rightarrow> (string \<times> val) list \<Rightarrow> (string \<times> val) list" where
  "kv_fill fs ps = map (\<lambda>p. (fst p, case map_of ps (fst p) of Some v \<Rightarrow> v | None \<Rightarrow> snd p)) fs"

definition kv_Decode :: "bytes \<Rightarrow> gval \<Rightarrow> error option \<times> gval" where
  "kv_Decode b dest =
     (case kv_parse b of
        None \<Rightarrow> (Some (External ''kv: syntax error''), deref dest)
      | Some ps \<Rightarrow>
          (case dest of
             Ptr (Val (VStruct fs)) \<Rightarrow> (None, Val (VStruct (kv_fill fs ps)))
           | Ptr (Ptr (Val (VStruct fs))) \<Rightarrow> (None, Ptr (Val (VStruct (kv_fill fs ps))))
           | Ptr (Val VNil) \<Rightarrow> (None, Val (VMap ps))
           | _ \<Rightarrow> (Some (External ''kv: unsupported destination''), deref dest)))"

text \<open>
  The same decoder, except that into an empty interface it puts a value that is not a
  \<^verbatim>\<open>map[string]any\<close> (as a schema-less decoder whose maps are
  \<^verbatim>\<open>map[interface{}]interface{}\<close> does); the model has no such map and takes the text.
\<close>

definition opaque_Decode :: "bytes \<Rightarrow> gval \<Rightarrow> error option \<times> gval" where
  "opaque_Decode b dest =
     (case dest of Ptr (Val VNil) \<Rightarrow> (None, Val (VStr b)) | _ \<Rightarrow> kv_Decode b dest)"

definition idx_Encode :: "indexing \<Rightarrow> error + bytes" where
  "idx_Encode ix =
     Inr (concat (map (\<lambda>f. f @ '';'') (Fields ix)) @ ''|'' @
          concat (map (\<lambda>e. fst e @ ''='' @ snd e @ '';'') (Indexes ix)))"

definition idx_item :: "string \<Rightarrow> (string \<times> string) option" where
  "idx_item s =
     (if CHR ''='' \<in> set s
      then Some (takeWhile (\<lambda>x. x \<noteq> CHR ''='') s, tl (dropWhile (\<lambda>x. x \<noteq> CHR ''='') s))
      else None)"

definition idx_Decode :: "bytes \<Rightarrow> indexing \<Rightarrow> error option \<times> indexing" where
  "idx_Decode b ix =
     (if CHR ''|'' \<in> set b
      then (case those (map idx_item (split_on CHR '';'' [] (tl (dropWhile (\<lambda>x. x \<noteq> CHR ''|'') b)))) of
              None \<Rightarrow> (Some (External ''idx: syntax error''), ix)
            | Some es \<Rightarrow>
                (None, \<lparr>Fields = split_on CHR '';'' [] (takeWhile (\<lambda>x. x \<noteq> CHR ''|'') b),
                        Indexes = es\<rparr>))
      else (Some (External ''idx: syntax error''), ix))"

definition kv_encoder :: Encoder where
  "kv_encoder = \<lparr>Encode = kv_Encode, EncodeIndexing = idx_Encode\<rparr>"

definition kv_decoder :: Decoder where
  "kv_decoder = \<lparr>Decode = kv_Decode, DecodeIndexing = idx_Decode\<rparr>"

definition opaque_decoder :: Decoder where
  "opaque_decoder = \<lparr>Decode = opaque_Decode, DecodeIndexing = idx_Decode\<rparr>"

text \<open>The record type of the repository's tests and a file system on which nothing fails.\<close>

definition Record_type :: gtype where
  "Record_type = TVal (TStruct [(''ID'', TString), (''Name'', TString), (''Email'', TString)])"

definition Record :: "string \<Rightarrow> string \<Rightarrow> string \<Rightarrow> val" where
  "Record i n e = VStruct [(''ID'', VStr i), (''Name'', VStr n), (''Email'', VStr e)]"

definition disk :: "(string \<times> node) list \<Rightarrow> fsys" where
  "disk es = \<lparr>entries = es, read_fails = (\<lambda>p. False), write_fails = (\<lambda>p. False),
              remove_fails = (\<lambda>p. False)\<rparr>"

text \<open>
  An initialized collection \<^verbatim>\<open>test\<close> with the given record type, decoder, indexed fields
  and index table.
\<close>

definition test_collection ::
  "gtype \<Rightarrow> Decoder \<Rightarrow> string list \<Rightarrow> (string \<times> string) list \<Rightarrow> Collection" where
  "test_collection t d flds ix =
     \<lparr>initialized = True, record_type = t, Path = ''/tmp/test/store'', Name = ''test'',
      Encoder = Some kv_encoder, Decoder = Some d,
      Indexing = \<lparr>Fields = flds, Indexes = ix\<rparr>\<rparr>"

text \<open>The predicate of the pagination test, which every record satisfies.\<close>

definition all_records :: "gval \<Rightarrow> bool" where
  "all_records r = True"

text \<open>The two records of the pagination test, stored in a collection without indexed fields.\<close>

definition rec1 :: val where
  "rec1 = Record ''1'' ''Test'' ''test1@example.com''"

definition rec2 :: val where
  "rec2 = Record ''2'' ''Test'' ''test2@example.com''"

definition plain :: Collection where
  "plain = test_collection Record_type kv_decoder [] []"

definition two_records :: fsys where
  "two_records =
     disk [(''1.sds'', File ''ID=1;Name=Test;Email=test1@example.com;''),
           (''2.sds'', File ''ID=2;Name=Test;Email=test2@example.com;'')]"

text \<open>
  The collection of the indexed test, indexed on \<^verbatim>\<open>Email\<close>, after the first record has been
  created; the same directory when the operating system refuses to remove files; and a
  directory whose second record file does not decode.
\<close>

definition indexed :: Collection where
  "indexed = test_collection Record_type kv_decoder [''Email''] [(''Email:test1@example.com'', ''1'')]"

definition one_record :: fsys where
  "one_record =
     disk [(''1.sds'', File ''ID=1;Name=Test;Email=test1@example.com;''),
           (''test.sdx'', File ''Email;|Email:test1@example.com=1;'')]"

definition remove_denied :: fsys where
  "remove_denied = one_record\<lparr>remove_fails := (\<lambda>p. True)\<rparr>"

definition one_bad :: fsys where
  "one_bad =
     disk [(''1.sds'', File ''ID=1;Name=Test;Email=test1@example.com;''),
           (''2.sds'', File ''garbage'')]"

text \<open>
  A collection indexed on \<^verbatim>\<open>Name\<close> and \<^verbatim>\<open>Email\<close> that holds the first record; a record
  with a new name and the e-mail address of the first; a collection indexed on a field
  that \<^verbatim>\<open>Record\<close> does not have; and an empty collection of \<^verbatim>\<open>*Record\<close> indexed on
  \<^verbatim>\<open>Email\<close>.
\<close>

definition two_fields :: Collection where
  "two_fields =
     test_collection Record_type kv_decoder [''Name'', ''Email'']
       [(''Name:Test'', ''1''), (''Email:test1@example.com'', ''1'')]"

definition two_fields_disk :: fsys where
  "two_fields_disk =
     disk [(''1.sds'', File ''ID=1;Name=Test;Email=test1@example.com;''),
           (''test.sdx'', File ''Name;Email;|Name:Test=1;Email:test1@example.com=1;'')]"

definition same_email :: val where
  "same_email = Record ''2'' ''Other'' ''test1@example.com''"

definition phone_indexed :: Collection where
  "phone_indexed = test_collection Record_type kv_decoder [''Phone''] []"

definition pointer_indexed :: Collection where
  "pointer_indexed = test_collection (TPtr Record_type) kv_decoder [''Email''] []"

text \<open>
  The first record with a new e-mail address, as the indexed test updates it, and the
  indexed collection with the decoder that does not give a \<^verbatim>\<open>map[string]any\<close>.
\<close>

definition moved :: val where
  "moved = Record ''1'' ''Test'' ''john.doe@example.com''"

definition indexed_opaque :: Collection where
  "indexed_opaque =
     test_collection Record_type opaque_decoder [''Email''] [(''Email:test1@example.com'', ''1'')]"

text \<open>
  A collection as \<^verbatim>\<open>newCollection\<close> makes it with \<^verbatim>\<open>WithIndexedFields("Email")\<close>, not yet
  initialized, over a directory whose index file was written for the indexed field
  \<^verbatim>\<open>Name\<close>, and over one whose index file was written for no indexed field.
\<close>

definition reopened :: Collection where
  "reopened =
     \<lparr>initialized = False, record_type = Record_type, Path = ''/tmp/test/store'', Name = ''test'',
      Encoder = Some kv_encoder, Decoder = Some kv_decoder,
      Indexing = \<lparr>Fields = [''Email''], Indexes = []\<rparr>\<rparr>"

definition name_indexed_disk :: fsys where
  "name_indexed_disk =
     disk [(''1.sds'', File ''ID=1;Name=Test;Email=test1@example.com;''),
           (''test.sdx'', File ''Name;|Name:Test=1;'')]"

definition unindexed_disk :: fsys where
  "unindexed_disk =
     disk [(''1.sds'', File ''ID=1;Name=Test;Email=test1@example.com;''),
           (''test.sdx'', File ''|'')]"

section \<open>Pagination\<close>

lemma Query_two_records: "Query plain two_records all_records = Inr [Ptr (Val rec1), Ptr (Val rec2)]"
  by code_simp

lemma Query_empty_disk: "Query plain (disk []) all_records = Inr []"
  by code_simp

lemma initialized_plain: "initialized plain"
  by (simp add: plain_def test_collection_def)

lemma QueryPaginated_rows_zero:
  assumes "initialized c" and "Query c fs f = Inr recs" and "page \<noteq> 0"
  shows "QueryPaginated c fs f page 0 = Inl (Panic ''runtime error: integer divide by zero'')"
  using assms by (simp add: QueryPaginated_def)

text \<open>
  C1. The claim: QueryPaginated with \<open>rows = 0\<close> and \<open>page \<noteq> 0\<close> does not crash and returns
  an InvalidArgument error. The code has no such guard: once Query has succeeded it
  evaluates \<^verbatim>\<open>count / rows\<close>, which panics with an integer division by zero. Here it is run
  on the two records of the pagination test with \<open>page = 1\<close>, \<open>rows = 0\<close>.
\<close>

theorem QueryPaginated_rows_zero_panics:
  "QueryPaginated plain two_records all_records 1 0
     = Inl (Panic ''runtime error: integer divide by zero'')"
  by (simp add: QueryPaginated_rows_zero [OF initialized_plain Query_two_records])

lemma wrap64_id: "- 9223372036854775808 \<le> x \<Longrightarrow> x < 9223372036854775808 \<Longrightarrow> wrap64 x = x"
  by (simp add: wrap64_def signed_take_bit_int_eq_self)

lemma sdiv_nonneg: "0 \<le> a \<Longrightarrow> 0 < b \<Longrightarrow> (a::int) sdiv b = a div b"
  by (simp add: signed_divide_int_def sgn_if)

lemma smod_nonneg: "0 \<le> a \<Longrightarrow> 0 < b \<Longrightarrow> (a::int) smod b = a mod b"
  by (simp add: signed_modulo_int_def sgn_if)

text \<open>
  The arithmetic of a page request with at least one match, at least one row per page and a
  page number from 1 on: nothing overflows, and the bounds of the slice are in range.
\<close>

lemma paginate_arith:
  fixes count rows page :: int
  assumes c: "1 \<le> count" "count < 2 ^ 62" and r: "1 \<le> rows" "rows < 2 ^ 63" and p: "1 \<le> page"
  defines "pages \<equiv> (if count mod rows \<noteq> 0 then count div rows + 1 else count div rows)"
  defines "p \<equiv> (if page > pages then pages else page)"
  shows "pages = - ((- count) div rows)"
    and "1 \<le> pages" and "pages \<le> count" and "1 \<le> p"
    and "p * rows < 2 ^ 63" and "0 \<le> p * rows - rows" and "p * rows - rows < count"
    and "0 \<le> count div rows" and "count div rows \<le> count"
proof -
  define q m where "q = count div rows" and "m = count mod rows"
  have eq: "q * rows + m = count" by (simp add: q_def m_def)
  have m: "0 \<le> m" "m < rows" using r by (simp_all add: m_def)
  have pg: "pages = (if m \<noteq> 0 then q + 1 else q)" by (simp add: pages_def q_def m_def)
  show "pages = - ((- count) div rows)"
    using r by (simp add: pages_def zdiv_zminus1_eq_if)
  have q0: "0 \<le> q" using c r by (simp add: q_def pos_imp_zdiv_nonneg_iff)
  show "0 \<le> count div rows" using q0 by (simp add: q_def)
  have qr: "q \<le> q * rows" using q0 r by (simp add: mult_le_cancel_left1)
  have pr: "pages * rows = (if m \<noteq> 0 then count - m + rows else count)"
    using eq by (simp add: pg algebra_simps)
  have pr_lo: "count \<le> pages * rows" and pr_hi: "pages * rows < count + rows"
    using m by (auto simp: pr)
  show p1: "1 \<le> pages"
  proof (rule ccontr)
    assume "\<not> 1 \<le> pages"
    then have "pages \<le> 0" by simp
    then have "pages * rows \<le> 0" using r by (simp add: mult_le_0_iff)
    with pr_lo c show False by simp
  qed
  show pc: "pages \<le> count" using eq m qr by (auto simp: pg split: if_splits)
  show "count div rows \<le> count" using eq m qr by (simp add: q_def[symmetric])
  show p1': "1 \<le> p" using p p1 by (simp add: p_def)
  have ple: "p \<le> pages" by (simp add: p_def)
  have prle: "p * rows \<le> pages * rows" using ple r by (simp add: mult_right_mono)
  show "p * rows < 2 ^ 63"
  proof (cases "count < rows")
    case True
    then have "q = 0" using c by (simp add: q_def)
    moreover have "m = count" using True c by (simp add: m_def)
    ultimately have "pages = 1" using c by (simp add: pg)
    then have "p = 1" using p1' ple by simp
    then show ?thesis using r by simp
  next
    case False
    then have "pages * rows < 2 * count" using pr_hi by simp
    then show ?thesis using prle c by simp
  qed
  have "(p - 1) * rows \<le> (pages - 1) * rows" using ple r by (simp add: mult_right_mono)
  also have "\<dots> < count" using pr_hi by (simp add: algebra_simps)
  finally show "p * rows - rows < count" by (simp add: algebra_simps)
  have "0 \<le> (p - 1) * rows" using p1' r by simp
  then show "0 \<le> p * rows - rows" by (simp add: algebra_simps)
qed

lemma QueryPaginated_pages:
  assumes "initialized c" and "Query c fs f = Inr recs"
    and "recs \<noteq> []" and "length recs < 2 ^ 62"
    and "1 \<le> rows" and "rows < 2 ^ 63" and "1 \<le> page"
  shows "QueryPaginated c fs f page rows =
           (let count = int (length recs);
                pages = \<lceil>real_of_int count / real_of_int rows\<rceil>;
                p = min page pages
            in Inr (drop (nat ((p - 1) * rows)) (take (nat (min (p * rows) count)) recs), pages))"
proof -
  define count where "count = int (length recs)"
  define pages where "pages = (if count mod rows \<noteq> 0 then count div rows + 1 else count div rows)"
  define p where "p = (if page > pages then pages else page)"
  have c: "1 \<le> count" "count < 2 ^ 62"
    using assms(3,4) by (simp_all add: count_def Suc_le_eq)
  note A = paginate_arith [OF c assms(5,6,7), folded pages_def p_def]
  have ceil: "\<lceil>real_of_int count / real_of_int rows\<rceil> = pages"
    using A(1) by (simp add: ceiling_divide_eq_div)
  have pmin: "min page pages = p" by (simp add: p_def min_def)
  have sd: "count sdiv rows = count div rows"
    using c assms(5) by (simp add: sdiv_nonneg)
  have c63: "count < 4611686018427387904"
    using c by simp
  have w1: "wrap64 (count sdiv rows) = count div rows"
    unfolding sd by (rule wrap64_id) (use c63 A(8,9) in linarith)+
  have w2: "wrap64 (count div rows + 1) = count div rows + 1"
    by (rule wrap64_id) (use c63 A(8,9) in linarith)+
  have sm: "count smod rows = count mod rows"
    using c assms(5) by (simp add: smod_nonneg)
  have pr0: "0 \<le> p * rows"
    using A(4) assms(5) by simp
  have A5: "p * rows < 9223372036854775808"
    using A(5) by simp
  have w3: "wrap64 (p * rows) = p * rows"
    by (rule wrap64_id) (use pr0 A5 in linarith)+
  have w4: "wrap64 (p * rows - rows) = p * rows - rows"
    by (rule wrap64_id) (use A5 A(6) assms(5) in linarith)+
  have lt: "p * rows - rows \<le> min (p * rows) count"
    using A(7) assms(5) by simp
  have sl: "take (nat (min (p * rows) count - (p * rows - rows))) (drop (nat (p * rows - rows)) recs)
            = drop (nat ((p - 1) * rows)) (take (nat (min (p * rows) count)) recs)"
  proof -
    have e1: "(p - 1) * rows = p * rows - rows"
      by (simp add: algebra_simps)
    have e2: "nat (min (p * rows) count - (p * rows - rows))
              = nat (min (p * rows) count) - nat (p * rows - rows)"
      using A(6) lt by (rule nat_diff_distrib)
    show ?thesis
      by (simp only: e1 e2 drop_take)
  qed
  have pg_eq: "(if count smod rows \<noteq> 0 then wrap64 (wrap64 (count sdiv rows) + 1)
                else wrap64 (count sdiv rows)) = pages"
    by (simp add: w1 sm w2 pages_def)
  have p_eq: "(if pages < page then pages else page) = p"
    by (simp add: p_def)
  have to_eq: "(if count < p * rows then count else p * rows) = min (p * rows) count"
    by (simp add: min_def)
  have g1: "\<not> p * rows - rows < 0"
    using A(6) by simp
  have g2: "\<not> min (p * rows) count < p * rows - rows"
    using lt by linarith
  have r0: "rows \<noteq> 0"
    using assms(5) by simp
  have "QueryPaginated c fs f page rows =
          Inr (take (nat (min (p * rows) count - (p * rows - rows))) (drop (nat (p * rows - rows)) recs), pages)"
    using assms(1,2) r0
    apply (simp add: QueryPaginated_def Let_def count_def[symmetric] split del: if_split)
    apply (simp only: pg_eq)
    apply (simp only: p_eq)
    apply (simp only: w3 w4 to_eq)
    using g1 g2 apply simp
    done
  then show ?thesis
    by (simp add: Let_def count_def[symmetric] ceil pmin sl)
qed

text \<open>
  Where the pagination policy does hold. With \<open>page = 0\<close> and \<open>rows = 0\<close> QueryPaginated
  returns every match and \<open>pages = 0\<close>. With at least one match, \<open>rows \<ge> 1\<close> and \<open>page \<ge> 1\<close>
  (and a result slice shorter than \<open>2 ^ 62\<close> and \<open>rows\<close> below \<open>2 ^ 63\<close>, so that the 64-bit
  products do not wrap) it returns \<open>pages = ceil(count / rows)\<close>, takes the requested page
  cut down to \<open>pages\<close>, and returns \<^verbatim>\<open>result[(page-1)*rows : min(page*rows, count)]\<close>.
\<close>

lemma QueryPaginated_policy:
  assumes "initialized c" and "Query c fs f = Inr recs"
  shows "QueryPaginated c fs f 0 0 = Inr (recs, 0) \<and>
         (recs \<noteq> [] \<and> length recs < 2 ^ 62 \<and> 1 \<le> rows \<and> rows < 2 ^ 63 \<and> 1 \<le> page \<longrightarrow>
          QueryPaginated c fs f page rows =
            (let count = int (length recs);
                 pages = \<lceil>real_of_int count / real_of_int rows\<rceil>;
                 p = min page pages
             in Inr (drop (nat ((p - 1) * rows)) (take (nat (min (p * rows) count)) recs), pages)))"
proof (intro conjI impI)
  show "QueryPaginated c fs f 0 0 = Inr (recs, 0)"
    using assms by (simp add: QueryPaginated_def)
next
  assume "recs \<noteq> [] \<and> length recs < 2 ^ 62 \<and> 1 \<le> rows \<and> rows < 2 ^ 63 \<and> 1 \<le> page"
  then show "QueryPaginated c fs f page rows =
            (let count = int (length recs);
                 pages = \<lceil>real_of_int count / real_of_int rows\<rceil>;
                 p = min page pages
             in Inr (drop (nat ((p - 1) * rows)) (take (nat (min (p * rows) count)) recs), pages))"
    using QueryPaginated_pages [OF assms] by blast
qed

text \<open>Over the two records, page 1 with one row per page is the first record, of 2 pages.\<close>

lemma QueryPaginated_policy_two_records:
  "initialized plain \<and> Query plain two_records all_records = Inr [Ptr (Val rec1), Ptr (Val rec2)] \<and>
   QueryPaginated plain two_records all_records 0 0 = Inr ([Ptr (Val rec1), Ptr (Val rec2)], 0) \<and>
   QueryPaginated plain two_records all_records 1 1 = Inr ([Ptr (Val rec1)], 2)"
  using QueryPaginated_policy [OF initialized_plain Query_two_records, of 1 1]
  by (simp add: initialized_plain Query_two_records)

text \<open>
  Where nothing matches, every request for a page from 1 on with at least one row per page
  panics: \<open>pages\<close> is 0, the requested page is cut down to 0, and the lower bound of the
  slice is \<open>- rows\<close>.
\<close>

lemma QueryPaginated_empty_result:
  assumes "initialized c" and "Query c fs f = Inr []"
    and "1 \<le> page" and "1 \<le> rows" and "rows < 2 ^ 63"
  shows "QueryPaginated c fs f page rows = Inl (Panic ''runtime error: slice bounds out of range'')"
proof -
  have w0: "wrap64 0 = 0"
    by (simp add: wrap64_def)
  have wr: "wrap64 (- rows) = - rows"
    by (rule wrap64_id) (use assms(4,5) in simp_all)
  show ?thesis
    using assms(1-4)
    by (simp add: QueryPaginated_def Let_def signed_divide_int_def signed_modulo_int_def w0 wr)
qed

text \<open>
  C7. The claim: with \<open>count\<close> the number of matches, QueryPaginated returns
  \<open>pages = ceil(count / rows)\<close>, cuts a requested page greater than \<open>pages\<close> down to \<open>pages\<close>
  (the code's comment: "then return the last page") and returns the slice of that page.
  Where nothing matches the code does not return: one row per page gives \<open>pages = 0\<close>, the
  requested page 1 is cut down to 0, and the slice \<^verbatim>\<open>recs[-1:0]\<close> panics, where the claim
  has no record and \<open>pages = 0\<close>.
\<close>

theorem QueryPaginated_no_match_panics:
  "QueryPaginated plain (disk []) all_records 1 1
     = Inl (Panic ''runtime error: slice bounds out of range'')"
  using initialized_plain Query_empty_disk
  by (simp add: QueryPaginated_def wrap64_def signed_divide_int_def signed_modulo_int_def)

section \<open>The file system\<close>

lemma map_of_put: "map_of (put p n es) q = (if q = p then Some n else map_of es q)"
  by (induction es) auto

lemma map_of_remove: "map_of (filter (\<lambda>e. fst e \<noteq> p) es) q = (if q = p then None else map_of es q)"
  by (induction es) auto

text \<open>A record file and the index file never share a name: the extensions differ.\<close>

lemma filepath_record_index: "filepath c a False \<noteq> filepath c' b True"
proof
  assume "filepath c a False = filepath c' b True"
  then have "last (a @ ''.sds'') = last (b @ ''.sdx'')"
    by (simp add: filepath_def)
  then show False by simp
qed

lemma Remove_failure: "Remove fs p = (Some e, fs') \<Longrightarrow> fs' = fs"
  by (auto simp: Remove_def split: if_splits option.splits)

lemma Remove_success:
  "Remove fs p = (None, fs') \<Longrightarrow> fs' = fs\<lparr>entries := filter (\<lambda>e. fst e \<noteq> p) (entries fs)\<rparr>"
  by (auto simp: Remove_def split: if_splits option.splits)

lemma saveIndexes_success:
  assumes "saveIndexes c fs = (None, fs')"
  shows "\<exists>b. call_EncodeIndexing c (Indexing c) = Inr b \<and>
             fs' = fs\<lparr>entries := put (filepath c (Name c) True) (File b) (entries fs)\<rparr>"
  using assms
  by (auto simp: saveIndexes_def save_def WriteFile_def
      split: sum.splits option.splits if_splits prod.splits node.splits)

section \<open>Query\<close>

text \<open>A walk whose callback fails on some entry, whatever it has collected, fails.\<close>

lemma walk_entries_failure:
  assumes "e \<in> set es" and "\<forall>s. \<exists>err. fn s e = Inl err"
  shows "\<exists>err. walk_entries fn es s = Inl err"
  using assms(1)
proof (induction es arbitrary: s)
  case Nil
  then show ?case by simp
next
  case (Cons a es)
  show ?case
  proof (cases "fn s a")
    case (Inl err)
    then show ?thesis by simp
  next
    case (Inr s')
    from assms(2) obtain err where "fn s e = Inl err" by blast
    with Inr have "a \<noteq> e" by auto
    with Cons.prems have "e \<in> set es" by simp
    from Cons.IH [OF this, of s'] Inr show ?thesis by simp
  qed
qed

text \<open>
  C5, as the code has it. The callback of Query returns the decoder's error, and Walk
  stops on it: when a record file of the directory loads and fails to decode, Query fails
  and returns an error to the caller; no record is returned. (Only the index rebuild skips
  a file that fails to decode.)
\<close>

theorem Query_decode_failure:
  assumes "initialized c" and "(p, File x) \<in> set (entries fs)" and "suffix ''.sds'' p"
    and "load c fs p = Inr b"
    and "call_Decode c b (Ptr (reflect_New (record_type c))) = Inr (Some e, d)"
  shows "\<exists>e'. Query c fs f = Inl e'"
proof -
  have "\<forall>res. \<exists>err. query_file c fs f res (p, File x) = Inl err"
    using assms(3,4,5) by simp
  then have "\<exists>err. walk_entries (query_file c fs f) (entries fs) [] = Inl err"
    using assms(2) by (rule walk_entries_failure [rotated])
  then show ?thesis
    using assms(1) by (simp add: Query_def Walk_def)
qed

lemma one_bad_entry: "(''2.sds'', File ''garbage'') \<in> set (entries one_bad)"
  by (simp add: one_bad_def disk_def)

lemma one_bad_suffix: "suffix ''.sds'' ''2.sds''"
  by code_simp

lemma one_bad_load: "load plain one_bad ''2.sds'' = Inr ''garbage''"
  by code_simp

lemma one_bad_decode:
  "call_Decode plain ''garbage'' (Ptr (reflect_New (record_type plain)))
     = Inr (Some (External ''kv: syntax error''), Ptr (Ptr (Val (Record [] [] []))))"
  by code_simp

theorem Query_decode_failure_witness:
  "initialized plain \<and> (''2.sds'', File ''garbage'') \<in> set (entries one_bad) \<and>
   suffix ''.sds'' ''2.sds'' \<and> load plain one_bad ''2.sds'' = Inr ''garbage'' \<and>
   (\<exists>e'. Query plain one_bad all_records = Inl e')"
  using Query_decode_failure [OF initialized_plain one_bad_entry one_bad_suffix one_bad_load
      one_bad_decode, of all_records]
  by (simp add: initialized_plain one_bad_entry one_bad_suffix one_bad_load)

text \<open>
  The claim as stated fails: with one record file that decodes and one that does not, Query
  returns the decoder's error and not the record that matches.
\<close>

theorem Query_bad_file_not_skipped:
  "Query plain one_bad all_records = Inl (External ''kv: syntax error'') \<and>
   Query plain one_bad all_records \<noteq> Inr [Ptr (Val rec1)]"
proof -
  have "Query plain one_bad all_records = Inl (External ''kv: syntax error'')"
    by code_simp
  then show ?thesis by simp
qed

section \<open>Delete\<close>

lemma map_of_delete_by_id: "map_of (delete_by_id m rid) k \<noteq> Some rid"
  by (induction m rid rule: delete_by_id.induct) auto

text \<open>
  C9. After Delete has succeeded, Get of the id into a struct or a pointer to a struct
  returns ErrNotFound; no key of the index table in memory maps to the id; and the index
  file holds the encoding of that table.
\<close>

theorem Delete_success:
  assumes "Delete c fs rid = (None, c', fs')" and "not_record dest = Inr False"
  shows "Get c' fs' rid dest = (Some ErrNotFound, dest) \<and>
         (\<forall>k. map_of (Indexes (Indexing c')) k \<noteq> Some rid) \<and>
         (\<exists>b. call_EncodeIndexing c' (Indexing c') = Inr b \<and>
              map_of (entries fs') (filepath c' (Name c') True) = Some (File b))"
proof -
  define c1 where
    "c1 = c\<lparr>Indexing := (Indexing c)\<lparr>Indexes := delete_by_id (Indexes (Indexing c)) rid\<rparr>\<rparr>"
  from assms(1) obtain fs1 where
    i: "initialized c" and r: "Remove fs (filepath c rid False) = (None, fs1)"
    and s: "saveIndexes c1 fs1 = (None, fs')" and c': "c' = c1"
    by (auto simp: Delete_def Let_def c1_def split: if_splits prod.splits option.splits)
  from saveIndexes_success [OF s] obtain b where
    b: "call_EncodeIndexing c1 (Indexing c1) = Inr b"
    and fs': "fs' = fs1\<lparr>entries := put (filepath c1 (Name c1) True) (File b) (entries fs1)\<rparr>"
    by blast
  have gone: "map_of (entries fs') (filepath c' rid False) = None"
    using Remove_success [OF r] filepath_record_index [of c' rid c1 "Name c1"]
    by (simp add: fs' map_of_put map_of_remove filepath_def)
  have "Get c' fs' rid dest = (Some ErrNotFound, dest)"
    using i assms(2) gone by (simp add: Get_def c' c1_def exists_def Stat_exists_def)
  moreover have "\<forall>k. map_of (Indexes (Indexing c')) k \<noteq> Some rid"
    by (simp add: c' c1_def map_of_delete_by_id)
  moreover have "map_of (entries fs') (filepath c' (Name c') True) = Some (File b)"
    by (simp add: fs' c' map_of_put)
  ultimately show ?thesis
    using b by (simp add: c')
qed

lemma Delete_indexed_ok: "fst (Delete indexed one_record ''1'') = None"
  by code_simp

lemma Delete_indexed_disk:
  "entries (snd (snd (Delete indexed one_record ''1''))) = [(''test.sdx'', File ''Email;|'')]"
  by code_simp

lemma Delete_indexed_table: "Indexes (Indexing (fst (snd (Delete indexed one_record ''1'')))) = []"
  by code_simp

lemma record_dest: "not_record (Ptr (Val rec2)) = Inr False"
  by (simp add: not_record_def rec2_def Record_def)

theorem Delete_success_witness:
  "fst (Delete indexed one_record ''1'') = None \<and>
   not_record (Ptr (Val rec2)) = Inr False \<and>
   Get (fst (snd (Delete indexed one_record ''1''))) (snd (snd (Delete indexed one_record ''1'')))
       ''1'' (Ptr (Val rec2)) = (Some ErrNotFound, Ptr (Val rec2)) \<and>
   Indexes (Indexing (fst (snd (Delete indexed one_record ''1'')))) = [] \<and>
   entries (snd (snd (Delete indexed one_record ''1''))) = [(''test.sdx'', File ''Email;|'')]"
proof -
  have h: "Delete indexed one_record ''1''
             = (None, fst (snd (Delete indexed one_record ''1'')),
                snd (snd (Delete indexed one_record ''1'')))"
    using Delete_indexed_ok by (cases "Delete indexed one_record ''1''") simp
  show ?thesis
    using Delete_success [OF h record_dest] Delete_indexed_ok Delete_indexed_disk
      Delete_indexed_table record_dest
    by simp
qed

text \<open>
  C10. When the removal of the record file fails, Delete returns that error (wrapped as
  \<^verbatim>\<open>deleting record\<close>) at once: the collection, with its index table, and the directory,
  with its index file, are as they were.
\<close>

theorem Delete_remove_failure:
  assumes "initialized c" and "exists c fs rid"
    and "Remove fs (filepath c rid False) = (Some e, fs')"
  shows "Delete c fs rid = (Some (wrap ''deleting record'' e), c, fs)"
  using assms Remove_failure [OF assms(3)] by (simp add: Delete_def)

lemma initialized_indexed: "initialized indexed"
  by (simp add: indexed_def test_collection_def)

lemma exists_remove_denied: "exists indexed remove_denied ''1''"
  by code_simp

lemma Remove_remove_denied:
  "Remove remove_denied (filepath indexed ''1'' False) = (Some (External ''remove''), remove_denied)"
  by (simp add: Remove_def remove_denied_def)

theorem Delete_remove_failure_witness:
  "initialized indexed \<and> exists indexed remove_denied ''1'' \<and>
   Remove remove_denied (filepath indexed ''1'' False) = (Some (External ''remove''), remove_denied) \<and>
   Delete indexed remove_denied ''1''
     = (Some (Wrap ''deleting record'' (External ''remove'')), indexed, remove_denied)"
  using Delete_remove_failure [OF initialized_indexed exists_remove_denied Remove_remove_denied]
  by (simp add: initialized_indexed exists_remove_denied Remove_remove_denied wrap_def)

section \<open>The field accessor\<close>

lemma isPointerToStruct_error: "isPointerToStruct v = Inl e \<Longrightarrow> is_panic e"
  by (cases v rule: isPointerToStruct.cases) auto

lemma not_record_error: "not_record v = Inl e \<Longrightarrow> is_panic e"
  by (auto simp: not_record_def split: if_splits sum.splits dest: isPointerToStruct_error)

lemma FieldByName_error: "FieldByName v f = Inl e \<Longrightarrow> is_panic e"
  by (cases "(v, f)" rule: FieldByName.cases) auto

lemma getFieldValue_error: "getFieldValue v f = Inl e \<Longrightarrow> is_panic e"
  by (auto simp: getFieldValue_def split: sum.splits bool.splits
      dest: not_record_error FieldByName_error)

text \<open>
  C6. The claim, which is the doc comment of getFieldValue: nil for a value that is no
  struct or pointer to a struct or that lacks the field, the field's value otherwise, and
  never a panic. The code passes a pointer to a struct on to
  \<^verbatim>\<open>reflect.Value.FieldByName\<close>, which panics on a Value of kind pointer; on the nil
  interface \<^verbatim>\<open>reflect.TypeOf(v).Kind()\<close> is a nil dereference; and for a struct the result
  is a \<^verbatim>\<open>reflect.Value\<close> boxed in an interface, which is never nil, also when the field
  is missing. So Create does not skip a missing field: it indexes the record under
  \<^verbatim>\<open>Phone:<invalid reflect.Value>\<close>.
\<close>

theorem getFieldValue_defects:
  "getFieldValue (Ptr (Val rec1)) ''Email''
     = Inl (Panic ''reflect: call of reflect.Value.FieldByName on ptr Value'') \<and>
   getFieldValue (Val VNil) ''Email''
     = Inl (Panic ''invalid memory address or nil pointer dereference'') \<and>
   getFieldValue (Val rec1) ''Phone'' = Inr (Reflect None) \<and>
   getFieldValue (Val rec1) ''Phone'' \<noteq> Inr (Val VNil) \<and>
   fst (Create phone_indexed (disk []) ''1'' (Val rec1)) = None \<and>
   Indexes (Indexing (fst (snd (Create phone_indexed (disk []) ''1'' (Val rec1)))))
     = [(''Phone:<invalid reflect.Value>'', ''1'')]"
  by code_simp

section \<open>Create\<close>

text \<open>
  C8. The claim: for every valid pair, Create followed by Get gives the record back. A
  pointer to a struct is a valid record (Create's own check lets it pass), but with an
  indexed field Create hands it to getFieldValue and panics before anything is stored;
  Get then finds no record.
\<close>

theorem Create_pointer_record_panics:
  "fst (Create pointer_indexed (disk []) ''1'' (Ptr (Val rec1)))
     = Some (Panic ''reflect: call of reflect.Value.FieldByName on ptr Value'') \<and>
   entries (snd (snd (Create pointer_indexed (disk []) ''1'' (Ptr (Val rec1))))) = [] \<and>
   fst (Get pointer_indexed (disk []) ''1'' (Ptr (Val rec2))) = Some ErrNotFound"
  by code_simp

lemma setIndex_rest:
  assumes "setIndex c fs fld v rid = (r, c', fs')"
  shows "initialized c' = initialized c" "Decoder c' = Decoder c" "Encoder c' = Encoder c"
    "Name c' = Name c"
  using assms by (auto simp: setIndex_def Let_def split: prod.splits)

lemma save_success:
  assumes "save c fs p b = (None, fs')"
  shows "map_of (entries fs') p = Some (File b)" and "read_fails fs' = read_fails fs"
  using assms
  by (auto simp: save_def WriteFile_def map_of_put split: if_splits option.splits node.splits)

lemma saveIndexes_oracles:
  assumes "saveIndexes c fs = (r, fs')"
  shows "read_fails fs' = read_fails fs"
  using assms
  by (auto simp: saveIndexes_def save_def WriteFile_def
      split: sum.splits option.splits if_splits prod.splits node.splits)

lemma setIndex_oracles:
  assumes "setIndex c fs fld v rid = (r, c', fs')"
  shows "read_fails fs' = read_fails fs"
  using assms saveIndexes_oracles by (auto simp: setIndex_def Let_def split: prod.splits)

lemma create_fields_rest:
  assumes "create_fields c fs rid data flds = (r, c', fs')"
  shows "initialized c' = initialized c \<and> Decoder c' = Decoder c \<and> Name c' = Name c \<and>
         read_fails fs' = read_fails fs"
  using assms
proof (induction flds arbitrary: c fs)
  case Nil
  then show ?case by simp
next
  case (Cons fld flds)
  show ?case
  proof (cases "getFieldValue data fld")
    case (Inl e)
    with Cons.prems show ?thesis by simp
  next
    case (Inr v)
    consider (nil) "v = Val VNil" | (dup) "v \<noteq> Val VNil" "existsIndexed c fld v"
      | (new) "v \<noteq> Val VNil" "\<not> existsIndexed c fld v"
      by blast
    then show ?thesis
    proof cases
      case nil
      with Inr Cons.prems have "create_fields c fs rid data flds = (r, c', fs')" by simp
      then show ?thesis by (rule Cons.IH)
    next
      case dup
      with Inr Cons.prems show ?thesis by simp
    next
      case new
      obtain e c1 fs1 where si: "setIndex c fs fld v rid = (e, c1, fs1)"
        by (cases "setIndex c fs fld v rid") auto
      note sr = setIndex_rest [OF si] setIndex_oracles [OF si]
      show ?thesis
      proof (cases "\<exists>err. e = Some err \<and> is_panic err")
        case True
        with Inr new si Cons.prems have "c' = c1" "fs' = fs1" by auto
        with sr show ?thesis by simp
      next
        case False
        with Inr new si Cons.prems have "create_fields c1 fs1 rid data flds = (r, c', fs')"
          by (cases e) auto
        from Cons.IH [OF this] sr show ?thesis by simp
      qed
    qed
  qed
qed

lemma Create_success:
  assumes "Create c fs rid data = (None, c', fs')"
  shows "\<exists>b fs1. initialized c \<and> call_Encode c data = Inr b \<and>
           create_fields c fs rid data (Fields (Indexing c)) = (None, c', fs1) \<and>
           save c' fs1 (filepath c' rid False) b = (None, fs')"
  using assms
  by (auto simp: Create_def split: if_splits sum.splits bool.splits prod.splits option.splits)

text \<open>
  What does hold of Create followed by Get: when Create has succeeded, Get decodes the very
  bytes the encoder made of the record, so it gives the record back wherever the decoder
  undoes the encoder.
\<close>

lemma Create_then_Get:
  assumes "Create c fs rid data = (None, c', fs')"
    and "call_Encode c data = Inr b" and "call_Decode c b dest = Inr (None, d)"
    and "not_record dest = Inr False" and "\<not> read_fails fs (filepath c rid False)"
  shows "Get c' fs' rid dest = (None, d)"
proof -
  from Create_success [OF assms(1)] assms(2) obtain fs1 where
    i: "initialized c"
    and cf: "create_fields c fs rid data (Fields (Indexing c)) = (None, c', fs1)"
    and s: "save c' fs1 (filepath c' rid False) b = (None, fs')"
    by auto
  note r = create_fields_rest [OF cf]
  note ss = save_success [OF s]
  have "call_Decode c' b dest = call_Decode c b dest"
    using r by (simp add: call_Decode_def)
  moreover have "load c' fs' (filepath c' rid False) = Inr b"
    using ss r assms(5) by (simp add: load_def ReadFile_def filepath_def)
  ultimately show ?thesis
    using i r ss(1) assms(3,4) by (simp add: Get_def exists_def Stat_exists_def)
qed

lemma wrap_not_unique: "wrap ctx e \<noteq> IndexedValueNotUniqueError f"
  by (cases e) (simp_all add: wrap_def)

lemma saveIndexes_others:
  assumes "saveIndexes c fs = (r, fs')" and "p \<noteq> filepath c (Name c) True"
  shows "map_of (entries fs') p = map_of (entries fs) p"
  using assms
  by (auto simp: saveIndexes_def save_def WriteFile_def map_of_put
      split: sum.splits option.splits if_splits prod.splits node.splits)

lemma setIndex_others:
  assumes "setIndex c fs fld v rid = (r, c', fs')" and "p \<noteq> filepath c (Name c) True"
  shows "map_of (entries fs') p = map_of (entries fs) p" and "Name c' = Name c"
  using assms saveIndexes_others
  by (auto simp: setIndex_def Let_def filepath_def split: prod.splits)

lemma setIndex_table:
  assumes "setIndex c fs fld v rid = (r, c', fs')"
  shows "map_of (Indexes (Indexing c')) k
           = (if k = key fld v then Some rid else map_of (Indexes (Indexing c)) k)"
  using assms by (auto simp: setIndex_def Let_def update_conv' split: prod.splits)

text \<open>The loop of Create writes no file but the index file.\<close>

lemma create_fields_others:
  assumes "create_fields c fs rid data flds = (r, c', fs')" and "p \<noteq> filepath c (Name c) True"
  shows "map_of (entries fs') p = map_of (entries fs) p"
  using assms
proof (induction flds arbitrary: c fs)
  case Nil
  then show ?case by simp
next
  case (Cons fld flds)
  have step: "map_of (entries fs') p = map_of (entries fs) p"
    if si: "setIndex c fs fld v rid = (e, c1, fs1)"
      and rest: "create_fields c1 fs1 rid data flds = (r, c', fs')" for v e c1 fs1
  proof -
    note o = setIndex_others [OF si Cons.prems(2)]
    have "p \<noteq> filepath c1 (Name c1) True"
      using Cons.prems(2) o(2) by (simp add: filepath_def)
    from Cons.IH [OF rest this] o(1) show ?thesis by simp
  qed
  from Cons.prems(1) show ?case
    by (auto split: sum.splits if_splits prod.splits option.splits
        intro: Cons.IH [OF _ Cons.prems(2)] step dest: setIndex_others(1) [OF _ Cons.prems(2)])
qed

text \<open>
  The loop of Create keeps every entry of the index table; the keys it adds map to the new
  id.
\<close>

lemma create_fields_table:
  assumes "create_fields c fs rid data flds = (r, c', fs')"
  shows "map_of (Indexes (Indexing c')) k = map_of (Indexes (Indexing c)) k \<or>
         (map_of (Indexes (Indexing c)) k = None \<and> map_of (Indexes (Indexing c')) k = Some rid)"
  using assms
proof (induction flds arbitrary: c fs)
  case Nil
  then show ?case by simp
next
  case (Cons fld flds)
  show ?case
  proof (cases "getFieldValue data fld")
    case (Inl e)
    with Cons.prems show ?thesis by simp
  next
    case (Inr v)
    consider (nil) "v = Val VNil" | (dup) "v \<noteq> Val VNil" "existsIndexed c fld v"
      | (new) "v \<noteq> Val VNil" "\<not> existsIndexed c fld v"
      by blast
    then show ?thesis
    proof cases
      case nil
      with Inr Cons.prems have "create_fields c fs rid data flds = (r, c', fs')" by simp
      then show ?thesis by (rule Cons.IH)
    next
      case dup
      with Inr Cons.prems show ?thesis by simp
    next
      case new
      obtain e c1 fs1 where si: "setIndex c fs fld v rid = (e, c1, fs1)"
        by (cases "setIndex c fs fld v rid") auto
      have none: "map_of (Indexes (Indexing c)) (key fld v) = None"
        using new(2) by (simp add: existsIndexed_def)
      note t = setIndex_table [OF si, of k]
      show ?thesis
      proof (cases "\<exists>err. e = Some err \<and> is_panic err")
        case True
        with Inr new si Cons.prems have "c' = c1" by auto
        with t none show ?thesis by (auto split: if_splits)
      next
        case False
        with Inr new si Cons.prems have "create_fields c1 fs1 rid data flds = (r, c', fs')"
          by (cases e) auto
        from Cons.IH [OF this] t none show ?thesis by (auto split: if_splits)
      qed
    qed
  qed
qed

lemma create_fields_single:
  assumes "create_fields c fs rid data [g] = (Some (IndexedValueNotUniqueError f), c', fs')"
  shows "c' = c \<and> fs' = fs"
  using assms
  by (auto split: sum.splits if_splits prod.splits option.splits dest: getFieldValue_error)

lemma Create_not_unique:
  assumes "Create c fs rid data = (Some (IndexedValueNotUniqueError f), c', fs')"
  shows "create_fields c fs rid data (Fields (Indexing c)) = (Some (IndexedValueNotUniqueError f), c', fs')"
  using assms
  by (auto simp: Create_def wrap_not_unique
      split: sum.splits if_splits prod.splits option.splits bool.splits
      dest: not_record_error)

text \<open>
  C3, as the code has it. When Create fails with IndexedValueNotUnique, no file of the
  directory other than the index file has changed, so the set of record files is as
  before; every entry of the index table is still there, and a key that was added maps to
  the new id; and in a collection with one indexed field the collection and the directory
  are exactly as before. (With two or more indexed fields the entries written for the
  fields before the one that fails stay, in memory and in the index file.)
\<close>

theorem Create_conflict:
  assumes "Create c fs rid data = (Some (IndexedValueNotUniqueError f), c', fs')"
  shows "(\<forall>p. p \<noteq> filepath c (Name c) True \<longrightarrow> map_of (entries fs') p = map_of (entries fs) p) \<and>
         (\<forall>k. map_of (Indexes (Indexing c')) k = map_of (Indexes (Indexing c)) k \<or>
              (map_of (Indexes (Indexing c)) k = None \<and> map_of (Indexes (Indexing c')) k = Some rid)) \<and>
         (length (Fields (Indexing c)) = 1 \<longrightarrow> c' = c \<and> fs' = fs)"
proof -
  note cf = Create_not_unique [OF assms]
  have "map_of (entries fs') p = map_of (entries fs) p" if "p \<noteq> filepath c (Name c) True" for p
    using create_fields_others [OF cf that] .
  moreover have "c' = c \<and> fs' = fs" if "length (Fields (Indexing c)) = 1"
  proof -
    from that obtain g where "Fields (Indexing c) = [g]"
      by (cases "Fields (Indexing c)") auto
    with cf show ?thesis
      by (simp add: create_fields_single)
  qed
  ultimately show ?thesis
    using create_fields_table [OF cf] by blast
qed

lemma Create_same_email: "fst (Create indexed one_record ''2'' (Val same_email)) = Some (IndexedValueNotUniqueError ''Email'')"
  by code_simp

lemma length_Fields_indexed: "length (Fields (Indexing indexed)) = 1"
  by code_simp

theorem Create_conflict_witness:
  "fst (Create indexed one_record ''2'' (Val same_email)) = Some (IndexedValueNotUniqueError ''Email'') \<and>
   length (Fields (Indexing indexed)) = 1 \<and>
   fst (snd (Create indexed one_record ''2'' (Val same_email))) = indexed \<and>
   snd (snd (Create indexed one_record ''2'' (Val same_email))) = one_record"
proof -
  have h: "Create indexed one_record ''2'' (Val same_email)
             = (Some (IndexedValueNotUniqueError ''Email''),
                fst (snd (Create indexed one_record ''2'' (Val same_email))),
                snd (snd (Create indexed one_record ''2'' (Val same_email))))"
    using Create_same_email by (cases "Create indexed one_record ''2'' (Val same_email)") simp
  show ?thesis
    using Create_conflict [OF h] Create_same_email length_Fields_indexed by simp
qed

text \<open>
  The claim as stated fails with two indexed fields: the new name is indexed, in memory
  and in the index file, before the duplicate e-mail address is found.
\<close>

theorem Create_conflict_keeps_earlier_entries:
  "fst (Create two_fields two_fields_disk ''2'' (Val same_email))
     = Some (IndexedValueNotUniqueError ''Email'') \<and>
   Indexes (Indexing two_fields) = [(''Name:Test'', ''1''), (''Email:test1@example.com'', ''1'')] \<and>
   Indexes (Indexing (fst (snd (Create two_fields two_fields_disk ''2'' (Val same_email)))))
     = [(''Name:Test'', ''1''), (''Email:test1@example.com'', ''1''), (''Name:Other'', ''2'')] \<and>
   map_of (entries two_fields_disk) ''test.sdx''
     = Some (File ''Name;Email;|Name:Test=1;Email:test1@example.com=1;'') \<and>
   map_of (entries (snd (snd (Create two_fields two_fields_disk ''2'' (Val same_email))))) ''test.sdx''
     = Some (File ''Name;Email;|Name:Test=1;Email:test1@example.com=1;Name:Other=2;'')"
  by code_simp

section \<open>Update\<close>

text \<open>Keys of two field names without a colon agree only for the same field and text.\<close>

lemma key_field_eq:
  assumes "CHR '':'' \<notin> set f" and "CHR '':'' \<notin> set g" and "key f x = key g y"
  shows "f = g \<and> fmtv x = fmtv y"
proof -
  from assms(3) have eq: "f @ CHR '':'' # fmtv x = g @ CHR '':'' # fmtv y"
    by (simp add: key_def)
  have "takeWhile (\<lambda>c. c \<noteq> CHR '':'') (f @ CHR '':'' # fmtv x) = f"
    using assms(1) by (auto simp: takeWhile_tail)
  moreover have "takeWhile (\<lambda>c. c \<noteq> CHR '':'') (g @ CHR '':'' # fmtv y) = g"
    using assms(2) by (auto simp: takeWhile_tail)
  ultimately have "f = g" using eq by simp
  with eq show ?thesis by simp
qed

lemma delete_stale_table:
  "map_of (Indexes (Indexing (delete_stale c old fld))) k =
     (case old of
        Val (VMap m) \<Rightarrow>
          (case map_of m fld of
             Some ov \<Rightarrow> if k = key fld (Val ov) then None else map_of (Indexes (Indexing c)) k
           | None \<Rightarrow> map_of (Indexes (Indexing c)) k)
      | _ \<Rightarrow> map_of (Indexes (Indexing c)) k)"
  by (simp add: delete_stale_def delete_conv' split: gval.splits val.splits option.splits)

lemma delete_stale_rest:
  "initialized (delete_stale c old fld) = initialized c"
  "Decoder (delete_stale c old fld) = Decoder c"
  "Encoder (delete_stale c old fld) = Encoder c"
  "Name (delete_stale c old fld) = Name c"
  by (simp_all add: delete_stale_def split: gval.splits val.splits option.splits)

lemma update_fields_rest:
  assumes "update_fields c fs rid data old flds = (r, c', fs')"
  shows "initialized c' = initialized c \<and> Decoder c' = Decoder c \<and> Encoder c' = Encoder c \<and>
         Name c' = Name c"
  using assms
proof (induction flds arbitrary: c fs)
  case Nil
  then show ?case by simp
next
  case (Cons fld flds)
  let ?c1 = "delete_stale c old fld"
  show ?case
  proof (cases "getFieldValue data fld")
    case (Inl e)
    with Cons.prems show ?thesis by (auto simp: Let_def delete_stale_rest)
  next
    case (Inr v)
    show ?thesis
    proof (cases "v = Val VNil")
      case True
      with Inr Cons.prems have "update_fields ?c1 fs rid data old flds = (r, c', fs')"
        by (simp add: Let_def)
      from Cons.IH [OF this] show ?thesis by (simp add: delete_stale_rest)
    next
      case False
      obtain e c2 fs2 where si: "setIndex ?c1 fs fld v rid = (e, c2, fs2)"
        by (cases "setIndex ?c1 fs fld v rid") auto
      note sr = setIndex_rest [OF si]
      show ?thesis
      proof (cases "\<exists>err. e = Some err \<and> is_panic err")
        case True
        with Inr False si Cons.prems have "c' = c2" by (auto simp: Let_def)
        with sr show ?thesis by (simp add: delete_stale_rest)
      next
        case np: False
        with Inr False si Cons.prems have "update_fields c2 fs2 rid data old flds = (r, c', fs')"
          by (cases e) (auto simp: Let_def)
        from Cons.IH [OF this] sr show ?thesis by (simp add: delete_stale_rest)
      qed
    qed
  qed
qed

text \<open>
  The loop of Update, for the field of interest: once its iteration has run, the key of the
  new value maps to the id and the key of the old value is gone, and the iterations of the
  other fields do not touch either key.
\<close>

lemma update_fields_table:
  assumes u: "update_fields c fs rid data (Val (VMap oldVals)) flds = (None, c', fs')"
    and colon: "\<forall>f\<in>set flds. CHR '':'' \<notin> set f" "CHR '':'' \<notin> set field"
    and old: "map_of oldVals field = Some oldv"
    and new: "getFieldValue data field = Inr (Reflect (Some newv))"
    and ne: "fmt_val oldv \<noteq> fmt_val newv"
    and start: "field \<in> set flds \<or>
                (map_of (Indexes (Indexing c)) (key field (Reflect (Some newv))) = Some rid \<and>
                 map_of (Indexes (Indexing c)) (key field (Val oldv)) = None)"
  shows "map_of (Indexes (Indexing c')) (key field (Reflect (Some newv))) = Some rid \<and>
         map_of (Indexes (Indexing c')) (key field (Val oldv)) = None"
  using u colon(1) start
proof (induction flds arbitrary: c fs)
  case Nil
  then show ?case by simp
next
  case (Cons fld flds)
  let ?old = "Val (VMap oldVals)"
  let ?Kn = "key field (Reflect (Some newv))" and ?Ko = "key field (Val oldv)"
  let ?c1 = "delete_stale c ?old fld"
  have fld: "CHR '':'' \<notin> set fld" and flds: "\<forall>f\<in>set flds. CHR '':'' \<notin> set f"
    using Cons.prems(2) by simp_all
  have kne: "?Kn \<noteq> ?Ko"
    using ne by (simp add: key_def)
  have other: "key fld x \<noteq> key field y" "key field y \<noteq> key fld x" if "fld \<noteq> field" for x y
    using key_field_eq [OF fld colon(2), of x y] that by auto
  obtain v where gv: "getFieldValue data fld = Inr v"
    using Cons.prems(1) by (cases "getFieldValue data fld") (auto simp: Let_def)
  \<comment> \<open>the table after this iteration, whichever way it went\<close>
  have iter: "\<exists>c2 fs2. update_fields c2 fs2 rid data ?old flds = (None, c', fs') \<and>
                (\<forall>k. map_of (Indexes (Indexing c2)) k =
                   (if v \<noteq> Val VNil \<and> k = key fld v then Some rid
                    else map_of (Indexes (Indexing ?c1)) k))"
  proof (cases "v = Val VNil")
    case True
    with gv Cons.prems(1) show ?thesis by (auto simp: Let_def)
  next
    case False
    obtain e c2 fs2 where si: "setIndex ?c1 fs fld v rid = (e, c2, fs2)"
      by (cases "setIndex ?c1 fs fld v rid") auto
    with gv False Cons.prems(1) have "update_fields c2 fs2 rid data ?old flds = (None, c', fs')"
      by (cases e) (auto simp: Let_def split: if_splits)
    with setIndex_table [OF si] False show ?thesis by auto
  qed
  then obtain c2 fs2 where rest: "update_fields c2 fs2 rid data ?old flds = (None, c', fs')"
    and t2: "\<And>k. map_of (Indexes (Indexing c2)) k =
                   (if v \<noteq> Val VNil \<and> k = key fld v then Some rid
                    else map_of (Indexes (Indexing ?c1)) k)"
    by blast
  have "field \<in> set flds \<or>
        (map_of (Indexes (Indexing c2)) ?Kn = Some rid \<and> map_of (Indexes (Indexing c2)) ?Ko = None)"
  proof (cases "fld = field")
    case True
    with gv new have v: "v = Reflect (Some newv)" by simp
    have "map_of (Indexes (Indexing c2)) ?Kn = Some rid"
      using t2 [of ?Kn] v True by simp
    moreover have "map_of (Indexes (Indexing c2)) ?Ko = None"
      using t2 [of ?Ko] v True kne old by (simp add: delete_stale_table)
    ultimately show ?thesis by simp
  next
    case False
    show ?thesis
    proof (cases "field \<in> set flds")
      case True
      then show ?thesis by simp
    next
      case nin: False
      with False Cons.prems(3) have
        P: "map_of (Indexes (Indexing c)) ?Kn = Some rid" "map_of (Indexes (Indexing c)) ?Ko = None"
        by auto
      have "map_of (Indexes (Indexing c2)) k = map_of (Indexes (Indexing c)) k"
        if "k = ?Kn \<or> k = ?Ko" for k
        using t2 [of k] that other [OF False]
        by (auto simp: delete_stale_table split: option.splits)
      with P show ?thesis by simp
    qed
  qed
  from Cons.IH [OF rest flds this] show ?case .
qed


lemma Update_success:
  assumes "Update c fs rid data = (None, c', fs')"
  shows "\<exists>b0 d b fs1. initialized c \<and> load c fs (filepath c rid False) = Inr b0 \<and>
           call_Decode c b0 (Ptr (Val VNil)) = Inr (None, d) \<and> call_Encode c data = Inr b \<and>
           update_fields c fs rid data (deref d) (Fields (Indexing c)) = (None, c', fs1) \<and>
           save c' fs1 (filepath c' rid False) b = (None, fs')"
  using assms
  by (auto simp: Update_def split: if_splits sum.splits bool.splits prod.splits option.splits)

text \<open>
  Where the removal of the stale key does work. Update deletes it only when the decoder,
  decoding the stored record into an empty interface, gives a \<^verbatim>\<open>map[string]any\<close> with an
  element under the field's name, and the key it deletes is made of the text of that
  element, whatever text the key was stored under. Where the decoder does so, with a new
  value of a different text and indexed field names without a colon: after Update has
  succeeded GetIndexed under the new value is Get of the id (the key maps to the id), and
  GetIndexed under the text of the decoded old value returns ErrNotFound.
\<close>

lemma Update_reindexes:
  assumes upd: "Update c fs rid data = (None, c', fs')"
    and field: "field \<in> set (Fields (Indexing c))"
    and colon: "\<forall>f\<in>set (Fields (Indexing c)). CHR '':'' \<notin> set f"
    and old: "load c fs (filepath c rid False) = Inr b0"
      "call_Decode c b0 (Ptr (Val VNil)) = Inr (None, Ptr (Val (VMap oldVals)))"
      "map_of oldVals field = Some oldv" "fmt_val oldv = old_value"
    and new: "getFieldValue data field = Inr (Reflect (Some newv))" "fmt_val newv = new_value"
    and ne: "old_value \<noteq> new_value"
    and dest: "not_record dest = Inr False"
  shows "GetIndexed c' fs' field new_value dest = Get c' fs' rid dest \<and>
         map_of (Indexes (Indexing c')) (key field (Val (VStr new_value))) = Some rid \<and>
         GetIndexed c' fs' field old_value dest = (Some ErrNotFound, dest)"
proof -
  from Update_success [OF upd] old(1,2) obtain b fs1 where
    i: "initialized c"
    and u: "update_fields c fs rid data (Val (VMap oldVals)) (Fields (Indexing c)) = (None, c', fs1)"
    and s: "save c' fs1 (filepath c' rid False) b = (None, fs')"
    by auto
  have i': "initialized c'"
    using update_fields_rest [OF u] i by simp
  have "CHR '':'' \<notin> set field"
    using field colon by blast
  from update_fields_table [OF u colon this old(3) new(1)] ne old(4) new(2) field
  have "map_of (Indexes (Indexing c')) (key field (Reflect (Some newv))) = Some rid"
    and "map_of (Indexes (Indexing c')) (key field (Val oldv)) = None"
    by simp_all
  then have kn: "map_of (Indexes (Indexing c')) (key field (Val (VStr new_value))) = Some rid"
    and ko: "map_of (Indexes (Indexing c')) (key field (Val (VStr old_value))) = None"
    using old(4) new(2) by (simp_all add: key_def)
  have ex: "exists c' fs' rid"
    using save_success(1) [OF s] by (simp add: exists_def Stat_exists_def)
  have "GetIndexed c' fs' field new_value dest = Get c' fs' rid dest"
    using i' dest kn ex by (simp add: GetIndexed_def Get_def)
  moreover have "GetIndexed c' fs' field old_value dest = (Some ErrNotFound, dest)"
    using i' dest ko by (simp add: GetIndexed_def)
  ultimately show ?thesis
    using kn by simp
qed

lemma Update_moved_ok: "fst (Update indexed one_record ''1'' (Val moved)) = None"
  by code_simp

lemma Email_indexed: "''Email'' \<in> set (Fields (Indexing indexed))"
  by (simp add: indexed_def test_collection_def)

lemma colon_indexed: "\<forall>f\<in>set (Fields (Indexing indexed)). CHR '':'' \<notin> set f"
  by (simp add: indexed_def test_collection_def)

lemma load_one_record:
  "load indexed one_record (filepath indexed ''1'' False) = Inr ''ID=1;Name=Test;Email=test1@example.com;''"
  by code_simp

lemma decode_one_record:
  "call_Decode indexed ''ID=1;Name=Test;Email=test1@example.com;'' (Ptr (Val VNil))
     = Inr (None, Ptr (Val (VMap [(''ID'', VStr ''1''), (''Name'', VStr ''Test''),
                                   (''Email'', VStr ''test1@example.com'')])))"
  by code_simp

lemma old_Email:
  "map_of [(''ID'', VStr ''1''), (''Name'', VStr ''Test''), (''Email'', VStr ''test1@example.com'')] ''Email''
     = Some (VStr ''test1@example.com'')"
  by simp

lemma new_Email: "getFieldValue (Val moved) ''Email'' = Inr (Reflect (Some (VStr ''john.doe@example.com'')))"
  by code_simp

lemma old_new: "''test1@example.com'' \<noteq> ''john.doe@example.com''"
  by simp

lemma Get_moved:
  "Get (fst (snd (Update indexed one_record ''1'' (Val moved))))
       (snd (snd (Update indexed one_record ''1'' (Val moved)))) ''1'' (Ptr (Val rec2))
     = (None, Ptr (Val moved))"
  by code_simp

lemma Update_reindexes_moved:
  "fst (Update indexed one_record ''1'' (Val moved)) = None \<and>
   ''Email'' \<in> set (Fields (Indexing indexed)) \<and>
   getFieldValue (Val moved) ''Email'' = Inr (Reflect (Some (VStr ''john.doe@example.com''))) \<and>
   not_record (Ptr (Val rec2)) = Inr False \<and>
   GetIndexed (fst (snd (Update indexed one_record ''1'' (Val moved))))
       (snd (snd (Update indexed one_record ''1'' (Val moved)))) ''Email'' ''john.doe@example.com''
       (Ptr (Val rec2)) = (None, Ptr (Val moved)) \<and>
   GetIndexed (fst (snd (Update indexed one_record ''1'' (Val moved))))
       (snd (snd (Update indexed one_record ''1'' (Val moved)))) ''Email'' ''test1@example.com''
       (Ptr (Val rec2)) = (Some ErrNotFound, Ptr (Val rec2))"
proof -
  have h: "Update indexed one_record ''1'' (Val moved)
             = (None, fst (snd (Update indexed one_record ''1'' (Val moved))),
                snd (snd (Update indexed one_record ''1'' (Val moved))))"
    using Update_moved_ok by (cases "Update indexed one_record ''1'' (Val moved)") simp
  have f: "fmt_val (VStr ''test1@example.com'') = ''test1@example.com''"
    "fmt_val (VStr ''john.doe@example.com'') = ''john.doe@example.com''"
    by simp_all
  show ?thesis
    using Update_reindexes [OF h Email_indexed colon_indexed load_one_record decode_one_record
        old_Email f(1) new_Email f(2) old_new record_dest]
      Update_moved_ok Email_indexed new_Email record_dest Get_moved
    by simp
qed

text \<open>
  C2. The claim: after Update has succeeded on a record whose indexed field held the old
  value and now holds a new one, GetIndexed under the old value returns NotFound, the stale
  key being removed (the code's comment: "Remove old value, if any, to prevent index
  polution"). The code finds the old value only by the type assertion
  \<^verbatim>\<open>oldRec.(map[string]any)\<close> on what the decoder put into an empty interface. With a
  decoder that puts anything else there, as a schema-less decoder whose maps are
  \<^verbatim>\<open>map[interface{}]interface{}\<close> does, the assertion fails and nothing is deleted:
  Update succeeds, the key of the old value stays in the table beside the new one, and
  GetIndexed under the old value still finds the record, now with its new content.
\<close>

theorem Update_keeps_stale_key:
  "fst (Update indexed_opaque one_record ''1'' (Val moved)) = None \<and>
   Indexes (Indexing (fst (snd (Update indexed_opaque one_record ''1'' (Val moved)))))
     = [(''Email:test1@example.com'', ''1''), (''Email:john.doe@example.com'', ''1'')] \<and>
   GetIndexed (fst (snd (Update indexed_opaque one_record ''1'' (Val moved))))
       (snd (snd (Update indexed_opaque one_record ''1'' (Val moved)))) ''Email'' ''test1@example.com''
       (Ptr (Val rec2)) = (None, Ptr (Val moved))"
  by code_simp


section \<open>Init and the index rebuild\<close>

text \<open>Reopening with the indexed fields the index file was written for does not rebuild.\<close>

lemma Init_no_rebuild:
  assumes "\<not> initialized c" and "Encoder c \<noteq> None" and "Decoder c \<noteq> None"
    and "loadIndexes c fs = (None, c1)" and "Fields (Indexing c1) = Fields (Indexing c)"
  shows "Init c fs = Inr (c1\<lparr>initialized := True\<rparr>)"
  using assms by (simp add: Init_def)

text \<open>
  C4. The claim: reopening with other indexed fields rebuilds the index table as a scan of
  the record files for the configured fields gives it. The rebuild does run, but
  recreateIndexes reads \<^verbatim>\<open>c.Indexing.Fields\<close> after loadIndexes has put the field list of
  the index file there, and it hands getFieldValue the pointer that \<^verbatim>\<open>reflect.New\<close> made.
  Over an index file written for \<^verbatim>\<open>Name\<close>, Init with \<^verbatim>\<open>Email\<close> panics at the first
  record file when the decoder makes a new field list, as the one here does (a decoder
  that writes into the array of the configured slice changes the saved list with it, and
  Init then finds no difference and does not rebuild at all). Over an index file written
  for no field, Init succeeds with no indexed field and an empty table, and GetIndexed does
  not find the stored record under its e-mail address.
\<close>

theorem Init_rebuild_defects:
  "map_sum id (\<lambda>c. Indexes (Indexing c)) (Init reopened name_indexed_disk)
     = Inl (Panic ''reflect: call of reflect.Value.FieldByName on ptr Value'') \<and>
   map_sum id (\<lambda>c. (initialized c, Fields (Indexing c), Indexes (Indexing c)))
       (Init reopened unindexed_disk)
     = Inr (True, [], []) \<and>
   map_sum id (\<lambda>c. fst (GetIndexed c unindexed_disk ''Email'' ''test1@example.com'' (Ptr (Val rec2))))
       (Init reopened unindexed_disk)
     = Inr (Some ErrNotFound)"
  by code_simp

end
